theory Spec2Isabelle
  imports Complex_Main
begin

section \<open>queuectl: the job record and the job store\<close>

text \<open>
  The store is the table \<^verbatim>\<open>jobs\<close> of the SQLite database (internal/store). A row is a
  \<^verbatim>\<open>Job\<close>; the table is the list of its rows in insertion order. A \<^verbatim>\<open>time.Time\<close> is
  the number of nanoseconds since the Unix epoch, an unbounded integer. Every call of
  \<^verbatim>\<open>time.Now()\<close> of the source is a parameter of the model, in the order of the calls.
  \<^verbatim>\<open>Attempts\<close> and \<^verbatim>\<open>MaxRetries\<close> are Go \<^verbatim>\<open>int\<close>s, modelled as unbounded integers: the
  only arithmetic on them is \<^verbatim>\<open>Attempts++\<close>, and in every run the attempts of a row stay
  between 0 and the larger of 1 and its \<^verbatim>\<open>MaxRetries\<close> (lemma \<open>attempts_range\<close>), so the
  increment never wraps around.

  A call of the database driver can fail (an I/O error, a busy database). Whether it
  does is an input of the model: a flag per driver call. A failed statement or a
  transaction that is rolled back leaves the table as it was.
\<close>

type_synonym time = int

datatype JobState = StatePending | StateProcessing | StateCompleted | StateFailed | StateDead

record Job =
  ID :: string
  Command :: string
  State :: JobState
  Attempts :: int
  MaxRetries :: int
  CreatedAt :: time
  UpdatedAt :: time
  NextRunAt :: time

datatype error =
    StorageError \<comment> \<open>the driver returned an error\<close>
  | DuplicateID \<comment> \<open>INSERT refused by \<^verbatim>\<open>id TEXT PRIMARY KEY\<close>\<close>
  | ErrNoRows \<comment> \<open>\<^verbatim>\<open>sql.ErrNoRows\<close>\<close>
  | UnmarshalError \<comment> \<open>\<^verbatim>\<open>json.Unmarshal\<close> refused the text\<close>
  | UnsupportedValueError \<comment> \<open>\<^verbatim>\<open>json.MarshalIndent\<close> refused a value\<close>
  | NumError \<comment> \<open>\<^verbatim>\<open>strconv\<close> refused the text\<close>
  | IOError \<comment> \<open>a file operation failed\<close>

text \<open>The zero \<^verbatim>\<open>time.Time\<close> (1 January of year 1, UTC), which a field that is never
  scanned keeps.\<close>

definition zeroTime :: time where
  "zeroTime = - 62135596800 * 1000000000"

text \<open>\<^verbatim>\<open>Enqueue\<close>: one INSERT of the job as it is given. The primary key refuses an id
  that a row already has.\<close>

definition Enqueue :: "bool \<Rightarrow> Job \<Rightarrow> Job list \<Rightarrow> (error + unit) \<times> Job list" where
  "Enqueue exec_ok job rows =
     (if \<not> exec_ok then (Inl StorageError, rows)
      else if ID job \<in> set (map ID rows) then (Inl DuplicateID, rows)
      else (Inr (), rows @ [job]))"

text \<open>The query of \<^verbatim>\<open>FindAndLockJob\<close>:
  \<^verbatim>\<open>WHERE state = 'pending' AND next_run_at <= now ORDER BY created_at ASC LIMIT 1\<close>.
  Among rows of equal \<^verbatim>\<open>created_at\<close> the sort keeps the table's order.\<close>

definition ready :: "time \<Rightarrow> Job \<Rightarrow> bool" where
  "ready now j \<longleftrightarrow> State j = StatePending \<and> NextRunAt j \<le> now"

definition select_ready :: "time \<Rightarrow> Job list \<Rightarrow> Job option" where
  "select_ready now rows =
     (case sort_key CreatedAt (filter (ready now) rows) of
        [] \<Rightarrow> None
      | j # _ \<Rightarrow> Some j)"

text \<open>\<^verbatim>\<open>UPDATE jobs SET state = ?, updated_at = ?, attempts = ? WHERE id = ?\<close>\<close>

definition update_lock :: "Job \<Rightarrow> Job list \<Rightarrow> Job list" where
  "update_lock job rows =
     map (\<lambda>r. if ID r = ID job
              then r\<lparr>State := State job, UpdatedAt := UpdatedAt job, Attempts := Attempts job\<rparr>
              else r) rows"

text \<open>The driver calls of the transaction of \<^verbatim>\<open>FindAndLockJob\<close>, one of which may fail.\<close>

datatype tx_fault = NoFault | BeginFails | QueryFails | ExecFails | CommitFails

text \<open>\<^verbatim>\<open>FindAndLockJob\<close>: \<open>now\<close> is the time of the query, \<open>now'\<close> the time written to
  \<^verbatim>\<open>updated_at\<close>. The result is \<open>Inr None\<close> for \<^verbatim>\<open>nil, nil\<close> (no job available),
  \<open>Inr (Some job)\<close> for a claimed job and \<open>Inl e\<close> when the error is not nil (the worker
  then ignores the job, also when it is \<^verbatim>\<open>Commit\<close> that failed).\<close>

definition FindAndLockJob ::
  "tx_fault \<Rightarrow> time \<Rightarrow> time \<Rightarrow> Job list \<Rightarrow> (error + Job option) \<times> Job list" where
  "FindAndLockJob io now now' rows =
     (if io = BeginFails then (Inl StorageError, rows)
      else if io = QueryFails then (Inl StorageError, rows)
      else case select_ready now rows of
        None \<Rightarrow> (Inr None, rows)
      | Some row \<Rightarrow>
          (let job = row\<lparr>State := StateProcessing, UpdatedAt := now', Attempts := Attempts row + 1\<rparr>
           in if io = ExecFails then (Inl StorageError, rows)
              else if io = CommitFails then (Inl StorageError, rows)
              else (Inr (Some job), update_lock job rows)))"

text \<open>\<^verbatim>\<open>UpdateJob\<close>: sets \<^verbatim>\<open>job.UpdatedAt\<close> in memory, then
  \<^verbatim>\<open>UPDATE jobs SET state = ?, attempts = ?, updated_at = ?, next_run_at = ? WHERE id = ?\<close>.
  An id that no row has updates nothing and is no error. The result holds the job as the
  caller's pointer sees it afterwards.\<close>

definition UpdateJob ::
  "bool \<Rightarrow> time \<Rightarrow> Job \<Rightarrow> Job list \<Rightarrow> (error + unit) \<times> Job \<times> Job list" where
  "UpdateJob exec_ok now job rows =
     (let job' = job\<lparr>UpdatedAt := now\<rparr>
      in if exec_ok
         then (Inr (), job',
               map (\<lambda>r. if ID r = ID job'
                        then r\<lparr>State := State job', Attempts := Attempts job',
                               UpdatedAt := UpdatedAt job', NextRunAt := NextRunAt job'\<rparr>
                        else r) rows)
         else (Inl StorageError, job', rows))"

text \<open>\<^verbatim>\<open>GetJob\<close>: the row of that id, or \<^verbatim>\<open>sql.ErrNoRows\<close>.\<close>

definition GetJob :: "bool \<Rightarrow> string \<Rightarrow> Job list \<Rightarrow> error + Job" where
  "GetJob query_ok jobID rows =
     (if \<not> query_ok then Inl StorageError
      else case find (\<lambda>r. ID r = jobID) rows of
        None \<Rightarrow> Inl ErrNoRows
      | Some r \<Rightarrow> Inr r)"

text \<open>\<^verbatim>\<open>ListJobsByState\<close>: the rows of that state by \<^verbatim>\<open>created_at\<close>; \<^verbatim>\<open>next_run_at\<close> is
  not scanned, so \<^verbatim>\<open>NextRunAt\<close> of each listed job is the zero time.\<close>

definition ListJobsByState :: "bool \<Rightarrow> JobState \<Rightarrow> Job list \<Rightarrow> error + Job list" where
  "ListJobsByState query_ok st rows =
     (if \<not> query_ok then Inl StorageError
      else Inr (map (\<lambda>r. r\<lparr>NextRunAt := zeroTime\<rparr>)
                  (sort_key CreatedAt (filter (\<lambda>r. State r = st) rows))))"

section \<open>Creating and enqueueing a job\<close>

text \<open>The anonymous struct that \<^verbatim>\<open>NewJobFromSpec\<close> decodes the specification into.\<close>

record partialJob =
  spec_ID :: string
  spec_Command :: string

text \<open>\<^verbatim>\<open>NewJobFromSpec\<close>. \<^verbatim>\<open>json.Unmarshal\<close> (into a \<open>partialJob\<close>) is Go's standard
  library and is a parameter, as are the string that \<^verbatim>\<open>uuid.New()\<close> gives and the
  time.\<close>

definition NewJobFromSpec ::
  "(string \<Rightarrow> error + partialJob) \<Rightarrow> string \<Rightarrow> time \<Rightarrow> string \<Rightarrow> int \<Rightarrow> error + Job" where
  "NewJobFromSpec Unmarshal uuid_New now spec defaultMaxRetries =
     (case Unmarshal spec of
        Inl err \<Rightarrow> Inl err
      | Inr partial \<Rightarrow>
          (let jobID = (if spec_ID partial = [] then uuid_New else spec_ID partial)
           in Inr \<lparr>ID = jobID, Command = spec_Command partial, State = StatePending,
                   Attempts = 0, MaxRetries = defaultMaxRetries,
                   CreatedAt = now, UpdatedAt = now, NextRunAt = now\<rparr>))"

section \<open>Configuration\<close>

text \<open>A \<^verbatim>\<open>float64\<close>: a finite value as the rational it denotes, the infinities and NaN.
  Arithmetic on finite values is exact here (no rounding, no overflow to an infinity),
  and a negative zero is not told from zero.\<close>

datatype float64 = Finite rat | PosInf | NegInf | NaN

record Config =
  cfgMaxRetries :: int \<comment> \<open>\<^verbatim>\<open>Config.MaxRetries\<close>\<close>
  BackoffBase :: float64
  DatabasePath :: string

definition DefaultMaxRetries :: int where
  "DefaultMaxRetries = 3"

definition DefaultBackoffBase :: float64 where
  "DefaultBackoffBase = Finite 2"

text \<open>The configuration file holds what \<^verbatim>\<open>Save\<close> wrote: the two fields with a JSON
  name. JSON has no text for an infinity or NaN.\<close>

record config_json =
  max_retries :: int
  backoff_base :: rat

text \<open>\<^verbatim>\<open>Save\<close>: \<^verbatim>\<open>json.MarshalIndent\<close> returns an error on a float that is not finite
  (nothing is written then); \<^verbatim>\<open>os.WriteFile\<close> may fail.\<close>

definition Save :: "bool \<Rightarrow> Config \<Rightarrow> config_json option \<Rightarrow> (error + unit) \<times> config_json option" where
  "Save write_ok c file =
     (case BackoffBase c of
        Finite q \<Rightarrow>
          if write_ok then (Inr (), Some \<lparr>max_retries = cfgMaxRetries c, backoff_base = q\<rparr>)
          else (Inl IOError, file)
      | _ \<Rightarrow> (Inl UnsupportedValueError, file))"

text \<open>\<^verbatim>\<open>Load\<close>: the cached \<^verbatim>\<open>globalConfig\<close> when there is one; otherwise the defaults,
  overwritten by the file when it exists. The result holds the new \<^verbatim>\<open>globalConfig\<close>.\<close>

definition Load ::
  "Config option \<Rightarrow> bool \<Rightarrow> string \<Rightarrow> config_json option \<Rightarrow> (error + Config) \<times> Config option" where
  "Load globalConfig io_ok dataDir file =
     (case globalConfig of
        Some c \<Rightarrow> (Inr c, globalConfig)
      | None \<Rightarrow>
          if \<not> io_ok then (Inl IOError, None)
          else
            (let cfg = \<lparr>cfgMaxRetries = DefaultMaxRetries, BackoffBase = DefaultBackoffBase,
                        DatabasePath = dataDir @ ''/jobs.db''\<rparr>;
                 cfg' = (case file of
                           None \<Rightarrow> cfg
                         | Some f \<Rightarrow> cfg\<lparr>cfgMaxRetries := max_retries f,
                                          BackoffBase := Finite (backoff_base f)\<rparr>)
             in (Inr cfg', Some cfg')))"

section \<open>The commands\<close>

datatype cmd_error =
    InvalidJobSpec error \<comment> \<open>invalid job spec: ...\<close>
  | FailedToEnqueue error \<comment> \<open>failed to enqueue job: ...\<close>
  | FailedToGetJob error \<comment> \<open>failed to get job ...\<close>
  | NotInDLQ JobState \<comment> \<open>job ... is not in the DLQ (current state: ...)\<close>
  | FailedToRetry error \<comment> \<open>failed to retry job ...\<close>
  | InvalidValue string \<comment> \<open>invalid value for max-retries / backoff-base\<close>
  | UnknownKey string \<comment> \<open>unknown configuration key\<close>
  | FailedToSave error \<comment> \<open>failed to save config: ...\<close>

text \<open>\<^verbatim>\<open>enqueueCmd\<close>: the job from the specification, with \<^verbatim>\<open>cfg.MaxRetries\<close>, is
  inserted. The result holds the id that is printed.\<close>

definition enqueueCmd ::
  "(string \<Rightarrow> error + partialJob) \<Rightarrow> string \<Rightarrow> time \<Rightarrow> Config \<Rightarrow> bool \<Rightarrow> string \<Rightarrow> Job list
     \<Rightarrow> (cmd_error + string) \<times> Job list" where
  "enqueueCmd Unmarshal uuid_New now cfg exec_ok jobSpec db =
     (case NewJobFromSpec Unmarshal uuid_New now jobSpec (cfgMaxRetries cfg) of
        Inl err \<Rightarrow> (Inl (InvalidJobSpec err), db)
      | Inr job \<Rightarrow>
          (case Enqueue exec_ok job db of
             (Inl err, db') \<Rightarrow> (Inl (FailedToEnqueue err), db')
           | (Inr _, db') \<Rightarrow> (Inr (ID job), db')))"

text \<open>\<^verbatim>\<open>dlqRetryCmd\<close>: \<open>now\<close> is the time written to \<^verbatim>\<open>NextRunAt\<close>, \<open>now'\<close> the time of
  \<^verbatim>\<open>UpdateJob\<close>.\<close>

definition dlqRetryCmd ::
  "bool \<Rightarrow> time \<Rightarrow> bool \<Rightarrow> time \<Rightarrow> string \<Rightarrow> Job list \<Rightarrow> (cmd_error + unit) \<times> Job list" where
  "dlqRetryCmd query_ok now exec_ok now' jobID db =
     (case GetJob query_ok jobID db of
        Inl err \<Rightarrow> (Inl (FailedToGetJob err), db)
      | Inr job \<Rightarrow>
          if State job \<noteq> StateDead then (Inl (NotInDLQ (State job)), db)
          else
            (let job1 = job\<lparr>State := StatePending, Attempts := 0, NextRunAt := now\<rparr>
             in case UpdateJob exec_ok now' job1 db of
                  (Inl err, _, db') \<Rightarrow> (Inl (FailedToRetry err), db')
                | (Inr _, _, db') \<Rightarrow> (Inr (), db')))"

text \<open>\<^verbatim>\<open>configSetCmd\<close>: \<^verbatim>\<open>strconv.Atoi\<close> and \<^verbatim>\<open>strconv.ParseFloat\<close> are Go's standard
  library and are parameters. The result holds the configuration in memory and the file
  as they are when the command returns.\<close>

definition configSetCmd ::
  "(string \<Rightarrow> error + int) \<Rightarrow> (string \<Rightarrow> error + float64) \<Rightarrow> bool \<Rightarrow> string \<Rightarrow> string
     \<Rightarrow> Config \<Rightarrow> config_json option \<Rightarrow> (cmd_error + unit) \<times> Config \<times> config_json option" where
  "configSetCmd Atoi ParseFloat write_ok key val cfg file =
     (case (if key = ''max-retries'' then
              (case Atoi val of
                 Inl err \<Rightarrow> Inl (InvalidValue val)
               | Inr retries \<Rightarrow> Inr (cfg\<lparr>cfgMaxRetries := retries\<rparr>))
            else if key = ''backoff-base'' then
              (case ParseFloat val of
                 Inl err \<Rightarrow> Inl (InvalidValue val)
               | Inr base \<Rightarrow> Inr (cfg\<lparr>BackoffBase := base\<rparr>))
            else Inl (UnknownKey key)) of
        Inl e \<Rightarrow> (Inl e, cfg, file)
      | Inr cfg' \<Rightarrow>
          (case Save write_ok cfg' file of
             (Inl err, file') \<Rightarrow> (Inl (FailedToSave err), cfg', file')
           | (Inr _, file') \<Rightarrow> (Inr (), cfg', file')))"

section \<open>The worker\<close>

text \<open>\<^verbatim>\<open>math.Pow(x, float64(n))\<close> for an integer \<open>n\<close>, with the special cases of its
  documentation.\<close>

definition math_Pow :: "float64 \<Rightarrow> int \<Rightarrow> float64" where
  "math_Pow x n =
     (if n = 0 then Finite 1
      else case x of
        NaN \<Rightarrow> NaN
      | PosInf \<Rightarrow> (if 0 < n then PosInf else Finite 0)
      | NegInf \<Rightarrow> (if n < 0 then Finite 0 else if odd n then NegInf else PosInf)
      | Finite q \<Rightarrow>
          (if q = 0 then (if n < 0 then PosInf else Finite 0)
           else Finite (q powi n)))"

text \<open>The conversion \<^verbatim>\<open>time.Duration(f)\<close> of a \<^verbatim>\<open>float64\<close> to \<^verbatim>\<open>int64\<close>: the fraction is
  discarded (truncation towards zero). Where the truncated value is no \<^verbatim>\<open>int64\<close> (also
  for an infinity and NaN) Go leaves the result to the implementation: \<open>impl\<close> gives
  it.\<close>

definition trunc :: "rat \<Rightarrow> int" where
  "trunc q = (if 0 \<le> q then \<lfloor>q\<rfloor> else \<lceil>q\<rceil>)"

definition wrap64 :: "int \<Rightarrow> int" where
  "wrap64 x = (x + 2 ^ 63) mod 2 ^ 64 - 2 ^ 63"

definition Duration :: "(float64 \<Rightarrow> int) \<Rightarrow> float64 \<Rightarrow> int" where
  "Duration impl f =
     (case f of
        Finite q \<Rightarrow> if - (2 ^ 63) \<le> trunc q \<and> trunc q < 2 ^ 63 then trunc q else wrap64 (impl f)
      | _ \<Rightarrow> wrap64 (impl f))"

definition Second :: int where
  "Second = 1000000000"

text \<open>\<^verbatim>\<open>backoffDuration\<close> of \<^verbatim>\<open>handleFailure\<close>, in nanoseconds:
  \<^verbatim>\<open>time.Duration(math.Pow(w.Cfg.BackoffBase, float64(job.Attempts))) * time.Second\<close>,
  an \<^verbatim>\<open>int64\<close> product.\<close>

definition backoffDuration :: "(float64 \<Rightarrow> int) \<Rightarrow> Config \<Rightarrow> Job \<Rightarrow> int" where
  "backoffDuration impl cfg job =
     wrap64 (Duration impl (math_Pow (BackoffBase cfg) (Attempts job)) * Second)"

text \<open>\<^verbatim>\<open>handleFailure\<close>: \<open>now\<close> is the time the delay is added to, \<open>now'\<close> the time of
  \<^verbatim>\<open>UpdateJob\<close>, whose error is only logged. The result holds the job in memory and the
  table.\<close>

definition handleFailure ::
  "(float64 \<Rightarrow> int) \<Rightarrow> Config \<Rightarrow> time \<Rightarrow> bool \<Rightarrow> time \<Rightarrow> Job \<Rightarrow> Job list \<Rightarrow> Job \<times> Job list" where
  "handleFailure impl cfg now exec_ok now' job db =
     (let job1 =
            (if Attempts job \<ge> MaxRetries job then job\<lparr>State := StateDead\<rparr>
             else
               (let job_a = job\<lparr>State := StateFailed\<rparr>;
                    job_b = job_a\<lparr>NextRunAt := now + backoffDuration impl cfg job_a\<rparr>
                in job_b\<lparr>State := StatePending\<rparr>))
      in case UpdateJob exec_ok now' job1 db of (_, job2, db') \<Rightarrow> (job2, db'))"

text \<open>\<^verbatim>\<open>processJob\<close>: \<open>cmd_ok\<close> says that the command ran and exited with status 0.\<close>

definition processJob ::
  "(float64 \<Rightarrow> int) \<Rightarrow> Config \<Rightarrow> bool \<Rightarrow> time \<Rightarrow> bool \<Rightarrow> time \<Rightarrow> Job \<Rightarrow> Job list \<Rightarrow> Job \<times> Job list" where
  "processJob impl cfg cmd_ok now exec_ok now' job db =
     (if \<not> cmd_ok then handleFailure impl cfg now exec_ok now' job db
      else
        (let job1 = job\<lparr>State := StateCompleted\<rparr>
         in case UpdateJob exec_ok now' job1 db of (_, job2, db') \<Rightarrow> (job2, db')))"

section \<open>Runs of the system\<close>

text \<open>
  The state of a run: the table, and the jobs that workers hold, each from the
  \<^verbatim>\<open>FindAndLockJob\<close> that returned it to the end of its \<^verbatim>\<open>processJob\<close>. An event is one
  whole operation with its inputs from the environment: an \<^verbatim>\<open>enqueue\<close> command, a
  worker's \<^verbatim>\<open>FindAndLockJob\<close>, a worker's \<^verbatim>\<open>processJob\<close> of the job it holds, and a
  \<^verbatim>\<open>dlq retry\<close> command. One iteration of the loop of \<^verbatim>\<open>Run\<close> is a claim, followed by
  the \<^verbatim>\<open>processJob\<close> of the job when the claim returned one; the workers of a manager
  and the commands interleave at whole operations. A worker that stops between the two
  holds its job for the rest of the run. A run starts from the empty table.
\<close>

record system =
  db :: "Job list"
  held :: "Job list"

datatype event =
    EnqueueCmd string time Config bool string
      \<comment> \<open>uuid, now, cfg, exec ok, specification\<close>
  | Claim tx_fault time time
      \<comment> \<open>fault, now, now'\<close>
  | Process nat Config bool time bool time
      \<comment> \<open>which held job, cfg, command ok, now, exec ok, now'\<close>
  | DlqRetryCmd bool time bool time string
      \<comment> \<open>query ok, now, exec ok, now', job id\<close>

definition init :: system where
  "init = \<lparr>db = [], held = []\<rparr>"

fun step ::
  "(string \<Rightarrow> error + partialJob) \<Rightarrow> (float64 \<Rightarrow> int) \<Rightarrow> event \<Rightarrow> system \<Rightarrow> system" where
  "step Unmarshal impl (EnqueueCmd uuid_New now cfg exec_ok jobSpec) s =
     s\<lparr>db := snd (enqueueCmd Unmarshal uuid_New now cfg exec_ok jobSpec (db s))\<rparr>"
| "step Unmarshal impl (Claim io now now') s =
     (case FindAndLockJob io now now' (db s) of
        (Inr (Some job), db') \<Rightarrow> \<lparr>db = db', held = job # held s\<rparr>
      | (_, db') \<Rightarrow> s\<lparr>db := db'\<rparr>)"
| "step Unmarshal impl (Process k cfg cmd_ok now exec_ok now') s =
     (if k < length (held s)
      then \<lparr>db = snd (processJob impl cfg cmd_ok now exec_ok now' (held s ! k) (db s)),
            held = take k (held s) @ drop (Suc k) (held s)\<rparr>
      else s)"
| "step Unmarshal impl (DlqRetryCmd query_ok now exec_ok now' jobID) s =
     s\<lparr>db := snd (dlqRetryCmd query_ok now exec_ok now' jobID (db s))\<rparr>"

fun run ::
  "(string \<Rightarrow> error + partialJob) \<Rightarrow> (float64 \<Rightarrow> int) \<Rightarrow> event list \<Rightarrow> system \<Rightarrow> system" where
  "run Unmarshal impl [] s = s"
| "run Unmarshal impl (e # es) s = run Unmarshal impl es (step Unmarshal impl e s)"

section \<open>The library functions at the inputs of the examples\<close>

text \<open>
  The theorems hold for every \<^verbatim>\<open>json.Unmarshal\<close>, \<^verbatim>\<open>strconv.Atoi\<close> and
  \<^verbatim>\<open>strconv.ParseFloat\<close>. The examples need their values at some texts: the tables
  below give what Go's functions return there (a text that is not listed is not used).
  A member that is absent from the JSON object leaves the field at its zero value, the
  empty string. For a \<^verbatim>\<open>float64\<close> that is no \<^verbatim>\<open>int64\<close> the examples take the result of
  the amd64 conversion, the least \<^verbatim>\<open>int64\<close>.
\<close>

definition Unmarshal_examples :: \<open>string \<Rightarrow> error + partialJob\<close> where
  \<open>Unmarshal_examples spec =
     (if spec = ''{"id":"job1","command":"echo hi"}''
        then Inr \<lparr>spec_ID = ''job1'', spec_Command = ''echo hi''\<rparr>
      else if spec = ''{"id":"job2","command":"exit 1"}''
        then Inr \<lparr>spec_ID = ''job2'', spec_Command = ''exit 1''\<rparr>
      else if spec = ''{"command":"echo hi"}''
        then Inr \<lparr>spec_ID = [], spec_Command = ''echo hi''\<rparr>
      else if spec = ''{"id":"job1"}''
        then Inr \<lparr>spec_ID = ''job1'', spec_Command = []\<rparr>
      else if spec = ''{}''
        then Inr \<lparr>spec_ID = [], spec_Command = []\<rparr>
      else if spec = ''{"id":''
        then Inl UnmarshalError
      else Inl UnmarshalError)\<close>

definition Atoi_examples :: "string \<Rightarrow> error + int" where
  "Atoi_examples val =
     (if val = ''0'' then Inr 0
      else if val = ''2'' then Inr 2
      else if val = ''-1'' then Inr (- 1)
      else if val = ''many'' then Inl NumError
      else Inl NumError)"

definition ParseFloat_examples :: "string \<Rightarrow> error + float64" where
  "ParseFloat_examples val =
     (if val = ''-2'' then Inr (Finite (- 2))
      else if val = ''0'' then Inr (Finite 0)
      else if val = ''1.25'' then Inr (Finite (5 / 4))
      else if val = ''1.5'' then Inr (Finite (3 / 2))
      else if val = ''NaN'' then Inr NaN
      else if val = ''+Inf'' then Inr PosInf
      else if val = ''fast'' then Inl NumError
      else Inl NumError)"

definition indefinite :: "float64 \<Rightarrow> int" where
  "indefinite f = - (2 ^ 63)"

section \<open>A table for the examples\<close>

text \<open>Four rows: a fresh job, a job rescheduled into the future, an older fresh job and a
  dead job.\<close>

definition rows_example :: "Job list" where
  "rows_example =
     [\<lparr>ID = ''job1'', Command = ''echo hi'', State = StatePending, Attempts = 0, MaxRetries = 3,
       CreatedAt = 3, UpdatedAt = 3, NextRunAt = 3\<rparr>,
      \<lparr>ID = ''job2'', Command = ''exit 1'', State = StatePending, Attempts = 1, MaxRetries = 3,
       CreatedAt = 1, UpdatedAt = 5, NextRunAt = 100\<rparr>,
      \<lparr>ID = ''job3'', Command = ''echo hi'', State = StatePending, Attempts = 0, MaxRetries = 3,
       CreatedAt = 2, UpdatedAt = 2, NextRunAt = 2\<rparr>,
      \<lparr>ID = ''job4'', Command = ''exit 1'', State = StateDead, Attempts = 3, MaxRetries = 3,
       CreatedAt = 0, UpdatedAt = 9, NextRunAt = 4\<rparr>]"

definition cfg_example :: Config where
  "cfg_example = \<lparr>cfgMaxRetries = 3, BackoffBase = Finite 2, DatabasePath = ''/home/u/.queuectl/jobs.db''\<rparr>"

section \<open>The invariant of the runs\<close>

text \<open>The columns that no statement of the program updates.\<close>

definition keys :: "Job list \<Rightarrow> (string \<times> int) list" where
  "keys rows = map (\<lambda>r. (ID r, MaxRetries r)) rows"

text \<open>What holds of every row of a run, and of every job that a worker holds: the row
  of a held job is processing, so that no claim and no retry touches it.\<close>

definition row_ok :: "Job \<Rightarrow> bool" where
  "row_ok r \<longleftrightarrow>
     State r \<noteq> StateFailed
   \<and> 0 \<le> Attempts r
   \<and> Attempts r \<le> max 1 (MaxRetries r)
   \<and> (State r = StatePending \<longrightarrow> Attempts r = 0 \<or> Attempts r < MaxRetries r)"

definition held_ok :: "Job list \<Rightarrow> Job \<Rightarrow> bool" where
  "held_ok rows j \<longleftrightarrow>
     State j = StateProcessing
   \<and> 1 \<le> Attempts j
   \<and> Attempts j \<le> max 1 (MaxRetries j)
   \<and> (ID j, MaxRetries j) \<in> set (keys rows)
   \<and> (\<forall>r \<in> set rows. ID r = ID j \<longrightarrow> State r = StateProcessing)"

definition invariant :: "system \<Rightarrow> bool" where
  "invariant s \<longleftrightarrow>
     distinct (map ID (db s))
   \<and> distinct (map ID (held s))
   \<and> (\<forall>r \<in> set (db s). row_ok r)
   \<and> (\<forall>j \<in> set (held s). held_ok (db s) j)"

section \<open>Lemmas\<close>

lemma select_ready_None:
  "select_ready now rows = None \<longleftrightarrow> (\<forall>r \<in> set rows. \<not> ready now r)"
proof -
  have "select_ready now rows = None \<longleftrightarrow> sort_key CreatedAt (filter (ready now) rows) = []"
    by (simp add: select_ready_def split: list.splits)
  also have "\<dots> \<longleftrightarrow> set (sort_key CreatedAt (filter (ready now) rows)) = {}"
    by (simp only: set_empty)
  also have "\<dots> \<longleftrightarrow> (\<forall>r \<in> set rows. \<not> ready now r)"
    by auto
  finally show ?thesis .
qed

lemma select_ready_Some:
  assumes "select_ready now rows = Some j"
  shows "j \<in> set rows" and "ready now j"
    and "\<forall>r \<in> set rows. ready now r \<longrightarrow> CreatedAt j \<le> CreatedAt r"
proof -
  obtain js where srt: "sort_key CreatedAt (filter (ready now) rows) = j # js"
    using assms by (auto simp: select_ready_def split: list.splits)
  have "j \<in> set (sort_key CreatedAt (filter (ready now) rows))"
    by (simp add: srt)
  then show "j \<in> set rows" and "ready now j"
    by auto
  have "sorted (map CreatedAt (j # js))"
    using sorted_sort_key [of CreatedAt "filter (ready now) rows"] by (simp add: srt)
  then have le: "\<forall>r \<in> set (j # js). CreatedAt j \<le> CreatedAt r"
    by auto
  have "set (j # js) = {r \<in> set rows. ready now r}"
    using set_sort [of CreatedAt "filter (ready now) rows"] by (simp add: srt)
  with le show "\<forall>r \<in> set rows. ready now r \<longrightarrow> CreatedAt j \<le> CreatedAt r"
    by blast
qed

lemma map_at_key:
  assumes "distinct (map ID rows)" and "i < length rows"
  shows "map (\<lambda>r. if ID r = ID (rows ! i) then f r else r) rows = rows[i := f (rows ! i)]"
proof (rule nth_equalityI)
  show "length (map (\<lambda>r. if ID r = ID (rows ! i) then f r else r) rows) = length (rows[i := f (rows ! i)])"
    by simp
next
  fix k
  assume "k < length (map (\<lambda>r. if ID r = ID (rows ! i) then f r else r) rows)"
  then have k: "k < length rows" by simp
  have "ID (rows ! k) = ID (rows ! i) \<longleftrightarrow> k = i"
    using assms k nth_eq_iff_index_eq [of "map ID rows" k i] by simp
  then show "map (\<lambda>r. if ID r = ID (rows ! i) then f r else r) rows ! k = rows[i := f (rows ! i)] ! k"
    using k assms(2) by (simp add: nth_list_update)
qed

lemma map_fst_keys: "map fst (keys rows) = map ID rows"
  by (simp add: keys_def)

lemma keys_same_ID:
  assumes "distinct (map ID rows)" and "(k, m) \<in> set (keys rows)" and "r \<in> set rows" and "ID r = k"
  shows "MaxRetries r = m"
proof -
  from assms(2) obtain r0 where r0: "r0 \<in> set rows" "ID r0 = k" "MaxRetries r0 = m"
    by (auto simp: keys_def)
  have "inj_on ID (set rows)"
    using assms(1) by (simp add: distinct_map)
  with r0 assms(3,4) have "r = r0"
    by (auto dest: inj_onD)
  with r0 show ?thesis by simp
qed

lemma keys_UpdateJob: "keys (snd (snd (UpdateJob ok now job rows))) = keys rows"
  by (simp add: UpdateJob_def keys_def Let_def)

lemma set_UpdateJob:
  assumes "r' \<in> set (snd (snd (UpdateJob ok now job rows)))"
  shows "r' \<in> set rows \<and> (ok \<longrightarrow> ID r' \<noteq> ID job)
       \<or> (\<exists>r \<in> set rows. ID r = ID job
            \<and> r' = r\<lparr>State := State job, Attempts := Attempts job,
                      UpdatedAt := now, NextRunAt := NextRunAt job\<rparr>)"
  using assms by (auto simp: UpdateJob_def Let_def split: if_splits)

lemma keys_update_lock: "keys (update_lock job rows) = keys rows"
  by (simp add: update_lock_def keys_def)

lemma set_update_lock:
  assumes "r' \<in> set (update_lock job rows)"
  shows "r' \<in> set rows \<and> ID r' \<noteq> ID job
       \<or> (\<exists>r \<in> set rows. ID r = ID job
            \<and> r' = r\<lparr>State := State job, UpdatedAt := UpdatedAt job, Attempts := Attempts job\<rparr>)"
  using assms by (auto simp: update_lock_def split: if_splits)

lemma distinct_keys: "keys rows' = keys rows \<Longrightarrow> distinct (map ID rows') = distinct (map ID rows)"
  using map_fst_keys [of rows] map_fst_keys [of rows'] by simp

lemma held_ok_other_ID:
  assumes "held_ok rows h" and "keys rows' = keys rows"
    and "\<And>r'. r' \<in> set rows' \<Longrightarrow> r' \<in> set rows \<or> ID r' = k" and "ID h \<noteq> k"
  shows "held_ok rows' h"
  using assms unfolding held_ok_def by metis

lemma held_ID_in_db:
  assumes "held_ok rows h"
  obtains r where "r \<in> set rows" "ID r = ID h" "State r = StateProcessing"
  using assms by (auto simp: held_ok_def keys_def)

lemma invariant_enqueueCmd:
  assumes "invariant s"
  shows "invariant (s\<lparr>db := snd (enqueueCmd Unmarshal uuid_New now cfg exec_ok jobSpec (db s))\<rparr>)"
proof (cases "NewJobFromSpec Unmarshal uuid_New now jobSpec (cfgMaxRetries cfg)")
  case (Inl e)
  then show ?thesis using assms by (simp add: enqueueCmd_def invariant_def)
next
  case (Inr job)
  then have job: "row_ok job"
    by (auto simp: NewJobFromSpec_def row_ok_def Let_def split: sum.splits)
  show ?thesis
  proof (cases "exec_ok \<and> ID job \<notin> set (map ID (db s))")
    case False
    then have "snd (enqueueCmd Unmarshal uuid_New now cfg exec_ok jobSpec (db s)) = db s"
      by (auto simp: enqueueCmd_def Inr Enqueue_def)
    then show ?thesis using assms by (simp add: invariant_def)
  next
    case True
    then have eq: "snd (enqueueCmd Unmarshal uuid_New now cfg exec_ok jobSpec (db s)) = db s @ [job]"
      by (auto simp: enqueueCmd_def Inr Enqueue_def)
    have "held_ok (db s @ [job]) h" if "h \<in> set (held s)" for h
    proof -
      from that assms have h: "held_ok (db s) h"
        by (simp add: invariant_def)
      then obtain r where "r \<in> set (db s)" "ID r = ID h"
        by (rule held_ID_in_db)
      then have "ID h \<in> set (map ID (db s))"
        by (metis image_eqI set_map)
      with True have "ID job \<noteq> ID h"
        by metis
      with h show ?thesis
        by (auto simp: held_ok_def keys_def)
    qed
    then have "invariant (s\<lparr>db := db s @ [job]\<rparr>)"
      using assms True job by (auto simp: invariant_def)
    then show ?thesis
      by (simp only: eq)
  qed
qed

lemma FindAndLockJob_cases:
  obtains (unchanged) r where "FindAndLockJob io now now' rows = (r, rows)" "\<forall>j. r \<noteq> Inr (Some j)"
  | (claimed) row where "row \<in> set rows" "State row = StatePending"
      "FindAndLockJob io now now' rows =
         (Inr (Some (row\<lparr>State := StateProcessing, UpdatedAt := now', Attempts := Attempts row + 1\<rparr>)),
          update_lock (row\<lparr>State := StateProcessing, UpdatedAt := now', Attempts := Attempts row + 1\<rparr>) rows)"
proof (cases "select_ready now rows")
  case None
  then show ?thesis
    by (intro unchanged [of "if io = BeginFails \<or> io = QueryFails then Inl StorageError else Inr None"])
       (auto simp: FindAndLockJob_def)
next
  case (Some row)
  then have row: "row \<in> set rows" "State row = StatePending"
    using select_ready_Some [of now rows row] by (auto simp: ready_def)
  show ?thesis
  proof (cases "io = NoFault")
    case True
    with Some row show ?thesis
      by (intro claimed [of row]) (auto simp: FindAndLockJob_def Let_def)
  next
    case False
    with Some show ?thesis
      by (intro unchanged [of "Inl StorageError"]) (cases io; auto simp: FindAndLockJob_def Let_def)+
  qed
qed

lemma invariant_Claim:
  assumes "invariant s"
  shows "invariant (step Unmarshal impl (Claim io now now') s)"
proof (cases io now now' "db s" rule: FindAndLockJob_cases)
  case (unchanged r)
  then have "step Unmarshal impl (Claim io now now') s = s"
    by (cases r) (auto split: option.splits)
  with assms show ?thesis by simp
next
  case (claimed row)
  let ?job = "row\<lparr>State := StateProcessing, UpdatedAt := now', Attempts := Attempts row + 1\<rparr>"
  let ?db = "update_lock ?job (db s)"
  from assms have ids: "distinct (map ID (db s))"
    and hids: "distinct (map ID (held s))"
    and rows: "\<forall>r \<in> set (db s). row_ok r"
    and helds: "\<forall>j \<in> set (held s). held_ok (db s) j"
    by (simp_all add: invariant_def)
  have st: "step Unmarshal impl (Claim io now now') s = \<lparr>db = ?db, held = ?job # held s\<rparr>"
    using claimed(3) by simp
  have k: "keys ?db = keys (db s)"
    by (rule keys_update_lock)
  have inj: "inj_on ID (set (db s))"
    using ids by (simp add: distinct_map)
  have row_ok_row: "row_ok row"
    using rows claimed(1) by blast
  have job_le: "Attempts row + 1 \<le> max 1 (MaxRetries row)" and job_ge: "0 \<le> Attempts row"
    using row_ok_row claimed(2) by (auto simp: row_ok_def)
  have upd: "r' \<in> set (db s) \<and> ID r' \<noteq> ID row \<or> r' = ?job" if "r' \<in> set ?db" for r'
  proof -
    from set_update_lock [OF that]
    consider "r' \<in> set (db s)" "ID r' \<noteq> ID row"
      | r where "r \<in> set (db s)" "ID r = ID row"
          "r' = r\<lparr>State := StateProcessing, UpdatedAt := now', Attempts := Attempts row + 1\<rparr>"
      by auto
    then show ?thesis
    proof cases
      case 1
      then show ?thesis by simp
    next
      case (2 r)
      with inj claimed(1) have "r = row"
        by (auto dest: inj_onD)
      with 2(3) show ?thesis by simp
    qed
  qed
  have not_old: "r' = ?job" if "r' \<in> set ?db" "ID r' = ID row" for r'
    using upd [OF that(1)] that(2) by blast
  have "row_ok ?job"
    using job_le job_ge by (simp add: row_ok_def)
  with rows upd have rows': "\<forall>r' \<in> set ?db. row_ok r'"
    by blast
  have other: "ID h \<noteq> ID row" if "h \<in> set (held s)" for h
  proof
    assume "ID h = ID row"
    moreover from that helds have "held_ok (db s) h"
      by blast
    ultimately have "State row = StateProcessing"
      using claimed(1) by (simp add: held_ok_def)
    with claimed(2) show False by simp
  qed
  have "State r' = StateProcessing" if "r' \<in> set ?db" "ID r' = ID ?job" for r'
  proof -
    from that have "r' = ?job"
      using not_old by simp
    then show ?thesis
      by simp
  qed
  then have "held_ok ?db ?job"
    unfolding held_ok_def k using job_le job_ge claimed(1) by (auto simp: keys_def)
  moreover have "held_ok ?db h" if "h \<in> set (held s)" for h
  proof (rule held_ok_other_ID [OF _ k _ other [OF that]])
    show "held_ok (db s) h"
      using that helds by blast
    show "r' \<in> set (db s) \<or> ID r' = ID row" if "r' \<in> set ?db" for r'
      using upd [OF that] by auto
  qed
  moreover have "distinct (map ID ?db)"
    using ids by (simp add: distinct_keys [OF k])
  moreover have "distinct (map ID (?job # held s))"
  proof -
    have "ID ?job \<notin> set (map ID (held s))"
    proof
      assume "ID ?job \<in> set (map ID (held s))"
      then obtain h where "h \<in> set (held s)" "ID h = ID row"
        by auto
      with other show False
        by blast
    qed
    with hids show ?thesis
      by simp
  qed
  ultimately have "invariant \<lparr>db = ?db, held = ?job # held s\<rparr>"
    using rows' by (auto simp: invariant_def)
  then show ?thesis
    by (simp only: st)
qed

lemma distinct_map_remove_nth:
  assumes "distinct (map f xs)" and "k < length xs"
  shows "distinct (map f (take k xs @ drop (Suc k) xs))"
    and "\<forall>x \<in> set (take k xs @ drop (Suc k) xs). x \<in> set xs \<and> f x \<noteq> f (xs ! k)"
proof -
  have xs: "xs = take k xs @ xs ! k # drop (Suc k) xs"
    using assms(2) by (simp add: id_take_nth_drop)
  have "distinct (map f (take k xs @ xs ! k # drop (Suc k) xs))"
    using assms(1) xs by simp
  then have d: "distinct (map f (take k xs @ drop (Suc k) xs))"
    and n: "f (xs ! k) \<notin> f ` set (take k xs @ drop (Suc k) xs)"
    by auto
  show "distinct (map f (take k xs @ drop (Suc k) xs))"
    by (rule d)
  show "\<forall>x \<in> set (take k xs @ drop (Suc k) xs). x \<in> set xs \<and> f x \<noteq> f (xs ! k)"
  proof (intro ballI conjI)
    fix x
    assume x: "x \<in> set (take k xs @ drop (Suc k) xs)"
    then show "x \<in> set xs"
      by (auto dest: in_set_takeD in_set_dropD)
    from x n show "f x \<noteq> f (xs ! k)"
      by (metis imageI)
  qed
qed

lemma invariant_UpdateJob_held:
  assumes inv: "invariant s" and k: "k < length (held s)"
    and job: "ID job = ID (held s ! k)" "Attempts job = Attempts (held s ! k)"
             "State job = StateCompleted \<or> State job = StateDead
              \<or> State job = StatePending \<and> Attempts (held s ! k) < MaxRetries (held s ! k)"
  shows "invariant \<lparr>db = snd (snd (UpdateJob ok now job (db s))),
                    held = take k (held s) @ drop (Suc k) (held s)\<rparr>"
proof -
  let ?db = "snd (snd (UpdateJob ok now job (db s)))"
  let ?j = "held s ! k"
  let ?hs = "take k (held s) @ drop (Suc k) (held s)"
  from inv have ids: "distinct (map ID (db s))"
    and hids: "distinct (map ID (held s))"
    and rows: "\<forall>r \<in> set (db s). row_ok r"
    and helds: "\<forall>j \<in> set (held s). held_ok (db s) j"
    by (simp_all add: invariant_def)
  have ks: "keys ?db = keys (db s)"
    by (rule keys_UpdateJob)
  from helds k have hj: "held_ok (db s) ?j" by simp
  have "row_ok r'" if "r' \<in> set ?db" for r'
  proof -
    from set_UpdateJob [OF that]
    consider "r' \<in> set (db s)"
      | r where "r \<in> set (db s)" "ID r = ID job"
          "r' = r\<lparr>State := State job, Attempts := Attempts job,
                   UpdatedAt := now, NextRunAt := NextRunAt job\<rparr>"
      by auto
    then show ?thesis
    proof cases
      case 1
      with rows show ?thesis by blast
    next
      case (2 r)
      have "(ID ?j, MaxRetries ?j) \<in> set (keys (db s))"
        using hj by (simp add: held_ok_def)
      from keys_same_ID [OF ids this 2(1)] 2(2) job(1)
      have "MaxRetries r = MaxRetries ?j"
        by simp
      with 2(3) job hj show ?thesis
        by (auto simp: row_ok_def held_ok_def)
    qed
  qed
  moreover have "held_ok ?db h" if "h \<in> set ?hs" for h
  proof (rule held_ok_other_ID [OF _ ks])
    from that distinct_map_remove_nth(2) [OF hids k]
    have h: "h \<in> set (held s)" "ID h \<noteq> ID ?j"
      by blast+
    from h(1) helds show "held_ok (db s) h"
      by blast
    from h(2) show "ID h \<noteq> ID job"
      by (simp add: job(1))
    show "r' \<in> set (db s) \<or> ID r' = ID job" if "r' \<in> set ?db" for r'
      using set_UpdateJob [OF that] by auto
  qed
  moreover have "distinct (map ID ?db)"
    using ids by (simp add: distinct_keys [OF ks])
  moreover have "distinct (map ID ?hs)"
    by (rule distinct_map_remove_nth(1) [OF hids k])
  ultimately show ?thesis
    by (auto simp: invariant_def)
qed

lemma processJob_UpdateJob:
  obtains job where
    "snd (processJob impl cfg cmd_ok now exec_ok now' j rows) = snd (snd (UpdateJob exec_ok now' job rows))"
    "ID job = ID j" "Attempts job = Attempts j"
    "State job = StateCompleted \<or> State job = StateDead
     \<or> State job = StatePending \<and> Attempts j < MaxRetries j"
proof (cases cmd_ok)
  case True
  then show ?thesis
    by (intro that [of "j\<lparr>State := StateCompleted\<rparr>"])
       (auto simp: processJob_def Let_def split: prod.splits)
next
  case False
  show ?thesis
  proof (cases "Attempts j \<ge> MaxRetries j")
    case True
    with \<open>\<not> cmd_ok\<close> show ?thesis
      by (intro that [of "j\<lparr>State := StateDead\<rparr>"])
         (auto simp: processJob_def handleFailure_def Let_def split: prod.splits)
  next
    case False
    with \<open>\<not> cmd_ok\<close> show ?thesis
      by (intro that [of "j\<lparr>NextRunAt := now + backoffDuration impl cfg (j\<lparr>State := StateFailed\<rparr>),
               State := StatePending\<rparr>"])
         (auto simp: processJob_def handleFailure_def Let_def split: prod.splits)
  qed
qed

lemma invariant_Process:
  assumes "invariant s"
  shows "invariant (step Unmarshal impl (Process k cfg cmd_ok now exec_ok now') s)"
proof (cases "k < length (held s)")
  case False
  with assms show ?thesis by simp
next
  case True
  let ?j = "held s ! k"
  obtain job where job:
    "snd (processJob impl cfg cmd_ok now exec_ok now' ?j (db s)) = snd (snd (UpdateJob exec_ok now' job (db s)))"
    "ID job = ID ?j" "Attempts job = Attempts ?j"
    "State job = StateCompleted \<or> State job = StateDead
     \<or> State job = StatePending \<and> Attempts ?j < MaxRetries ?j"
    by (rule processJob_UpdateJob)
  from invariant_UpdateJob_held [OF assms True job(2,3,4)]
  show ?thesis
    using True by (simp add: job(1))
qed

lemma GetJob_Inr:
  assumes "GetJob query_ok jobID rows = Inr job"
  shows "job \<in> set rows" and "ID job = jobID"
  using assms
  by (auto simp: GetJob_def find_Some_iff split: if_splits option.splits)

lemma invariant_DlqRetryCmd:
  assumes "invariant s"
  shows "invariant (step Unmarshal impl (DlqRetryCmd query_ok now exec_ok now' jobID) s)"
proof (cases "GetJob query_ok jobID (db s)")
  case (Inl e)
  with assms show ?thesis by (simp add: dlqRetryCmd_def)
next
  case (Inr job)
  show ?thesis
  proof (cases "State job = StateDead")
    case False
    with Inr assms show ?thesis by (simp add: dlqRetryCmd_def)
  next
    case True
    let ?job = "job\<lparr>State := StatePending, Attempts := 0, NextRunAt := now\<rparr>"
    let ?db = "snd (snd (UpdateJob exec_ok now' ?job (db s)))"
    from assms have ids: "distinct (map ID (db s))"
      and hids: "distinct (map ID (held s))"
      and rows: "\<forall>r \<in> set (db s). row_ok r"
      and helds: "\<forall>j \<in> set (held s). held_ok (db s) j"
      by (simp_all add: invariant_def)
    have eq: "snd (dlqRetryCmd query_ok now exec_ok now' jobID (db s)) = ?db"
      using Inr True by (simp add: dlqRetryCmd_def Let_def split: prod.splits sum.splits)
    have k: "keys ?db = keys (db s)"
      by (rule keys_UpdateJob)
    have "row_ok r'" if "r' \<in> set ?db" for r'
      using set_UpdateJob [OF that] rows by (auto simp: row_ok_def)
    moreover have "held_ok ?db h" if "h \<in> set (held s)" for h
    proof (rule held_ok_other_ID [OF _ k])
      from that helds show h: "held_ok (db s) h"
        by blast
      show "ID h \<noteq> ID ?job"
      proof
        assume "ID h = ID ?job"
        with h GetJob_Inr(1) [OF Inr] have "State job = StateProcessing"
          by (simp add: held_ok_def)
        with True show False by simp
      qed
      show "r' \<in> set (db s) \<or> ID r' = ID ?job" if "r' \<in> set ?db" for r'
        using set_UpdateJob [OF that] by auto
    qed
    moreover have "distinct (map ID ?db)"
      using ids by (simp add: distinct_keys [OF k])
    ultimately have "invariant (s\<lparr>db := ?db\<rparr>)"
      using hids by (auto simp: invariant_def)
    then show ?thesis
      by (simp add: eq)
  qed
qed

lemma invariant_step:
  assumes "invariant s"
  shows "invariant (step Unmarshal impl e s)"
proof (cases e)
  case (EnqueueCmd uuid_New now cfg exec_ok jobSpec)
  with invariant_enqueueCmd [OF assms] show ?thesis by simp
next
  case (Claim io now now')
  with invariant_Claim [OF assms] show ?thesis by simp
next
  case (Process k cfg cmd_ok now exec_ok now')
  with invariant_Process [OF assms] show ?thesis by simp
next
  case (DlqRetryCmd query_ok now exec_ok now' jobID)
  with invariant_DlqRetryCmd [OF assms] show ?thesis by simp
qed

lemma invariant_run: "invariant s \<Longrightarrow> invariant (run Unmarshal impl es s)"
  by (induction es arbitrary: s) (simp_all add: invariant_step)

lemma invariant_init: "invariant init"
  by (simp add: invariant_def init_def)

lemma invariant_reachable: "invariant (run Unmarshal impl es init)"
  by (rule invariant_run [OF invariant_init])

text \<open>Two workers never hold the same job, and the row of a held job is processing.\<close>

lemma held_jobs_distinct:
  "distinct (map ID (held (run Unmarshal impl es init)))"
  using invariant_reachable [of Unmarshal impl es] by (simp add: invariant_def)

lemma held_job_row_Processing:
  assumes "h \<in> set (held (run Unmarshal impl es init))"
    and "r \<in> set (db (run Unmarshal impl es init))" and "ID r = ID h"
  shows "State r = StateProcessing"
  using invariant_reachable [of Unmarshal impl es] assms by (simp add: invariant_def held_ok_def)

text \<open>The attempts of a row stay between 0 and the larger of 1 and its maximum of
  retries: \<^verbatim>\<open>Attempts++\<close> never leaves the range of the Go \<^verbatim>\<open>int\<close>.\<close>

lemma attempts_range:
  assumes "r \<in> set (db (run Unmarshal impl es init))"
  shows "0 \<le> Attempts r" and "Attempts r \<le> max 1 (MaxRetries r)"
  using invariant_reachable [of Unmarshal impl es] assms by (simp_all add: invariant_def row_ok_def)

lemma table_ids_distinct:
  "distinct (map ID (db (run Unmarshal impl es init)))"
  using invariant_reachable [of Unmarshal impl es] by (simp add: invariant_def)

lemma find_ID_nth:
  assumes "distinct (map ID rows)" and "i < length rows"
  shows "find (\<lambda>r. ID r = ID (rows ! i)) rows = Some (rows ! i)"
proof -
  have "\<exists>k. k < length rows \<and> ID (rows ! k) = ID (rows ! i) \<and> rows ! i = rows ! k
            \<and> (\<forall>j < k. ID (rows ! j) \<noteq> ID (rows ! i))"
  proof (intro exI [of _ i] conjI allI impI)
    fix j assume "j < i"
    then show "ID (rows ! j) \<noteq> ID (rows ! i)"
      using assms nth_eq_iff_index_eq [of "map ID rows" j i] by simp
  qed (use assms in simp_all)
  then show ?thesis
    by (simp add: find_Some_iff)
qed

lemma trunc_nonpos: "q \<le> 0 \<Longrightarrow> trunc q = \<lceil>q\<rceil>"
  by (auto simp: trunc_def)

lemma wrap64_id: "- (2 ^ 63) \<le> x \<Longrightarrow> x < 2 ^ 63 \<Longrightarrow> wrap64 x = x"
  by (simp add: wrap64_def)

lemma backoffDuration_negative_base:
  assumes base: "BackoffBase cfg = Finite q" and neg: "q \<le> - 1" and lo: "- (2 ^ 33) \<le> q"
    and one: "Attempts job = 1"
  shows "backoffDuration impl cfg job = \<lceil>q\<rceil> * Second" and "backoffDuration impl cfg job \<le> - Second"
proof -
  define c where "c = \<lceil>q\<rceil>"
  have c_hi: "c \<le> - 1"
    using neg by (simp add: c_def ceiling_le_iff)
  have "(- (2 ^ 33) :: rat) = of_int (- (2 ^ 33))"
    by simp
  then have c_lo: "- (2 ^ 33) \<le> c"
    unfolding c_def using lo by (metis ceiling_mono ceiling_of_int)
  have t: "trunc q = c"
    using neg by (simp add: c_def trunc_nonpos)
  have p: "math_Pow (Finite q) 1 = Finite q"
    using neg by (auto simp: math_Pow_def)
  have "- (2 ^ 63) \<le> c" and "c < 2 ^ 63"
    using c_hi c_lo by simp_all
  then have d: "Duration impl (Finite q) = c"
    by (simp add: Duration_def t)
  have "- (2 ^ 63) \<le> c * Second" and "c * Second < 2 ^ 63"
    using c_hi c_lo by (simp_all add: Second_def)
  then have "wrap64 (c * Second) = c * Second"
    by (rule wrap64_id)
  then have 1: "backoffDuration impl cfg job = c * Second"
    by (simp add: backoffDuration_def base one p d)
  then show "backoffDuration impl cfg job = \<lceil>q\<rceil> * Second"
    by (simp only: c_def)
  show "backoffDuration impl cfg job \<le> - Second"
    using c_hi by (simp add: 1 Second_def)
qed

lemma handleFailure_dead:
  assumes "Attempts job \<ge> MaxRetries job"
  shows "fst (handleFailure impl cfg now exec_ok now' job rows) =
           job\<lparr>State := StateDead, UpdatedAt := now'\<rparr>"
  using assms by (simp add: handleFailure_def UpdateJob_def Let_def)

lemma handleFailure_pending:
  assumes "Attempts job < MaxRetries job"
  shows "fst (handleFailure impl cfg now exec_ok now' job rows) =
           job\<lparr>State := StatePending,
               NextRunAt := now + backoffDuration impl cfg job, UpdatedAt := now'\<rparr>"
  using assms by (simp add: handleFailure_def UpdateJob_def backoffDuration_def Let_def)

lemma trunc_of_int: "trunc (of_int k) = k"
  by (simp add: trunc_def)

lemma backoffDuration_base_one:
  assumes "BackoffBase cfg = Finite 1"
  shows "backoffDuration impl cfg job = Second"
proof -
  have "math_Pow (Finite 1) (Attempts job) = Finite 1"
    by (simp add: math_Pow_def)
  moreover have "trunc 1 = 1"
    using trunc_of_int [of 1] by simp
  ultimately show ?thesis
    using assms by (simp add: backoffDuration_def Duration_def wrap64_def Second_def)
qed

lemma backoffDuration_integer_base:
  assumes base: "BackoffBase cfg = Finite (of_int b)" and b: "1 \<le> b"
    and n: "0 \<le> Attempts job" and small: "b ^ nat (Attempts job) \<le> 2 ^ 33"
  shows "backoffDuration impl cfg job = b ^ nat (Attempts job) * Second"
proof -
  define d where "d = b ^ nat (Attempts job)"
  have d_pos: "1 \<le> d"
    using b by (simp add: d_def)
  have d_small: "d \<le> 2 ^ 33"
    using small by (simp add: d_def)
  have pw: "(of_int b :: rat) powi Attempts job = of_int d"
    using n by (simp add: power_int_def d_def)
  have "math_Pow (Finite (of_int b)) (Attempts job) = Finite (of_int d)"
  proof (cases "Attempts job = 0")
    case True
    then show ?thesis by (simp add: math_Pow_def d_def)
  next
    case False
    moreover have "(of_int b :: rat) \<noteq> 0"
      using b by simp
    ultimately show ?thesis
      by (simp add: math_Pow_def pw)
  qed
  moreover have "Duration impl (Finite (of_int d)) = d"
    using d_pos d_small by (simp add: Duration_def trunc_of_int)
  moreover have "wrap64 (d * Second) = d * Second"
    using d_pos d_small by (intro wrap64_id) (simp_all add: Second_def)
  ultimately show ?thesis
    by (simp add: backoffDuration_def base d_def)
qed

section \<open>The properties of the specification\<close>

text \<open>
  C2. When no driver call fails, \<^verbatim>\<open>FindAndLockJob\<close> on a table with unique ids: if no
  row is pending with \<^verbatim>\<open>next_run_at <= now\<close> (the empty table included) it returns no job
  and no error and leaves the table as it is; otherwise it takes a pending row with
  \<^verbatim>\<open>next_run_at <= now\<close> whose \<^verbatim>\<open>created_at\<close> is the least among such rows, sets its
  state to processing, adds exactly 1 to its attempts, sets \<^verbatim>\<open>updated_at\<close> to the current
  time, writes that row back in place (every other row is unchanged) and returns the
  updated job.
\<close>

theorem FindAndLockJob_claims_oldest_ready:
  assumes ids: "distinct (map ID rows)"
  shows "((\<forall>r \<in> set rows. \<not> ready now r) \<longrightarrow>
            FindAndLockJob NoFault now now' rows = (Inr None, rows))
       \<and> ((\<exists>r \<in> set rows. ready now r) \<longrightarrow>
            (\<exists>i < length rows.
               ready now (rows ! i)
             \<and> (\<forall>r \<in> set rows. ready now r \<longrightarrow> CreatedAt (rows ! i) \<le> CreatedAt r)
             \<and> FindAndLockJob NoFault now now' rows =
                 (Inr (Some ((rows ! i)\<lparr>State := StateProcessing, UpdatedAt := now',
                                         Attempts := Attempts (rows ! i) + 1\<rparr>)),
                  rows[i := (rows ! i)\<lparr>State := StateProcessing, UpdatedAt := now',
                                        Attempts := Attempts (rows ! i) + 1\<rparr>])))"
proof (intro conjI impI)
  assume "\<forall>r \<in> set rows. \<not> ready now r"
  then have "select_ready now rows = None"
    by (simp add: select_ready_None)
  then show "FindAndLockJob NoFault now now' rows = (Inr None, rows)"
    by (simp add: FindAndLockJob_def)
next
  assume "\<exists>r \<in> set rows. ready now r"
  then have "select_ready now rows \<noteq> None"
    by (simp add: select_ready_None)
  then obtain j where sel: "select_ready now rows = Some j"
    by blast
  from select_ready_Some [OF sel] obtain i where i: "i < length rows" "rows ! i = j"
    by (auto simp: in_set_conv_nth)
  let ?job = "j\<lparr>State := StateProcessing, UpdatedAt := now', Attempts := Attempts j + 1\<rparr>"
  have "update_lock ?job rows =
          map (\<lambda>r. if ID r = ID (rows ! i)
                   then r\<lparr>State := StateProcessing, UpdatedAt := now', Attempts := Attempts j + 1\<rparr>
                   else r) rows"
    by (simp add: update_lock_def i(2))
  also have "\<dots> = rows[i := (\<lambda>r. r\<lparr>State := StateProcessing, UpdatedAt := now',
                                     Attempts := Attempts j + 1\<rparr>) (rows ! i)]"
    by (rule map_at_key [OF ids i(1)])
  also have "\<dots> = rows[i := ?job]"
    by (simp add: i(2))
  finally have "update_lock ?job rows = rows[i := ?job]" .
  then have "FindAndLockJob NoFault now now' rows = (Inr (Some ?job), rows[i := ?job])"
    by (simp add: FindAndLockJob_def sel Let_def)
  with select_ready_Some [OF sel] i show "\<exists>i < length rows.
               ready now (rows ! i)
             \<and> (\<forall>r \<in> set rows. ready now r \<longrightarrow> CreatedAt (rows ! i) \<le> CreatedAt r)
             \<and> FindAndLockJob NoFault now now' rows =
                 (Inr (Some ((rows ! i)\<lparr>State := StateProcessing, UpdatedAt := now',
                                         Attempts := Attempts (rows ! i) + 1\<rparr>)),
                  rows[i := (rows ! i)\<lparr>State := StateProcessing, UpdatedAt := now',
                                        Attempts := Attempts (rows ! i) + 1\<rparr>])"
    by blast
qed

text \<open>At time 10 the table of the examples has two ready rows; the older one, \<open>job3\<close>, is
  claimed. At time 1 no row is ready.\<close>

theorem FindAndLockJob_claims_oldest_ready_witness:
  "distinct (map ID rows_example)
   \<and> (\<exists>r \<in> set rows_example. ready 10 r)
   \<and> FindAndLockJob NoFault 10 11 rows_example =
       (Inr (Some \<lparr>ID = ''job3'', Command = ''echo hi'', State = StateProcessing, Attempts = 1,
                    MaxRetries = 3, CreatedAt = 2, UpdatedAt = 11, NextRunAt = 2\<rparr>),
        rows_example[2 := \<lparr>ID = ''job3'', Command = ''echo hi'', State = StateProcessing, Attempts = 1,
                    MaxRetries = 3, CreatedAt = 2, UpdatedAt = 11, NextRunAt = 2\<rparr>])
   \<and> FindAndLockJob NoFault 1 2 rows_example = (Inr None, rows_example)"
proof -
  have ids: "distinct (map ID rows_example)"
    by (simp add: rows_example_def)
  have none: "\<forall>r \<in> set rows_example. \<not> ready 1 r"
    by (simp add: rows_example_def ready_def)
  have some: "\<exists>r \<in> set rows_example. ready 10 r"
    by (simp add: rows_example_def ready_def)
  from FindAndLockJob_claims_oldest_ready [OF ids, of 1 2] none
  have r1: "FindAndLockJob NoFault 1 2 rows_example = (Inr None, rows_example)"
    by blast
  from FindAndLockJob_claims_oldest_ready [OF ids, of 10 11] some
  obtain i where i: "i < length rows_example" "ready 10 (rows_example ! i)"
      "\<forall>r \<in> set rows_example. ready 10 r \<longrightarrow> CreatedAt (rows_example ! i) \<le> CreatedAt r"
      "FindAndLockJob NoFault 10 11 rows_example =
         (Inr (Some ((rows_example ! i)\<lparr>State := StateProcessing, UpdatedAt := 11,
                                         Attempts := Attempts (rows_example ! i) + 1\<rparr>)),
          rows_example[i := (rows_example ! i)\<lparr>State := StateProcessing, UpdatedAt := 11,
                                        Attempts := Attempts (rows_example ! i) + 1\<rparr>])"
    by blast
  have "i = 2"
  proof -
    from i(1) have "i = 0 \<or> i = 1 \<or> i = 2 \<or> i = 3"
      by (auto simp: rows_example_def)
    with i(2,3) show ?thesis
      by (auto simp: rows_example_def ready_def)
  qed
  with i(4) have r2: "FindAndLockJob NoFault 10 11 rows_example =
       (Inr (Some \<lparr>ID = ''job3'', Command = ''echo hi'', State = StateProcessing, Attempts = 1,
                    MaxRetries = 3, CreatedAt = 2, UpdatedAt = 11, NextRunAt = 2\<rparr>),
        rows_example[2 := \<lparr>ID = ''job3'', Command = ''echo hi'', State = StateProcessing, Attempts = 1,
                    MaxRetries = 3, CreatedAt = 2, UpdatedAt = 11, NextRunAt = 2\<rparr>])"
    by (simp add: rows_example_def)
  from ids some r1 r2 show ?thesis
    by blast
qed

text \<open>
  C3. The property: a failure with attempts at or above the maximum of retries makes the
  job dead; otherwise the job is pending again with \<^verbatim>\<open>next_run_at\<close> exactly
  \<open>now + base ^ attempts\<close> seconds. The first half holds (lemma \<open>handleFailure_dead\<close>),
  and so does the second for a base that is a whole number (lemma
  \<open>backoffDuration_integer_base\<close>). It fails for a base with a fraction: with
  \<^verbatim>\<open>backoff-base\<close> 1.5, a job with 3 retries that fails its first attempt at time 10 s is
  rescheduled for time 11 s, not 11.5 s, because the power 1.5 is converted to the whole
  number 1 before it is multiplied by a second.
\<close>

theorem handleFailure_cuts_delay_to_whole_seconds:
  "handleFailure indefinite (cfg_example\<lparr>BackoffBase := Finite (3 / 2)\<rparr>)
     10000000000 True 10000000001
     \<lparr>ID = ''job2'', Command = ''exit 1'', State = StateProcessing, Attempts = 1,
      MaxRetries = 3, CreatedAt = 0, UpdatedAt = 6, NextRunAt = 0\<rparr>
     [\<lparr>ID = ''job2'', Command = ''exit 1'', State = StateProcessing, Attempts = 1,
       MaxRetries = 3, CreatedAt = 0, UpdatedAt = 6, NextRunAt = 0\<rparr>] =
   (\<lparr>ID = ''job2'', Command = ''exit 1'', State = StatePending, Attempts = 1,
     MaxRetries = 3, CreatedAt = 0, UpdatedAt = 10000000001, NextRunAt = 11000000000\<rparr>,
    [\<lparr>ID = ''job2'', Command = ''exit 1'', State = StatePending, Attempts = 1,
      MaxRetries = 3, CreatedAt = 0, UpdatedAt = 10000000001, NextRunAt = 11000000000\<rparr>])"
proof -
  have "trunc (3 / 2) = 1"
    by (simp add: trunc_def floor_eq_iff)
  then show ?thesis
    by (simp add: cfg_example_def handleFailure_def UpdateJob_def backoffDuration_def
        Duration_def math_Pow_def wrap64_def Second_def Let_def)
qed

text \<open>
  C4. The property: for a base above 1 the delay grows strictly with the attempts, and for
  the base 1 it is constant. The second half holds (lemma \<open>backoffDuration_base_one\<close>:
  one second). The first fails: with \<^verbatim>\<open>backoff-base\<close> 1.25 the delays for attempts 1 and
  2 of a job with 3 retries are both one second, because the powers 1.25 and 1.5625 are
  converted to the whole number 1 before they are multiplied by a second.
\<close>

theorem backoffDuration_not_increasing_below_base_two:
  "backoffDuration indefinite (cfg_example\<lparr>BackoffBase := Finite (5 / 4)\<rparr>)
     \<lparr>ID = ''job2'', Command = ''exit 1'', State = StateFailed, Attempts = 1,
      MaxRetries = 3, CreatedAt = 0, UpdatedAt = 6, NextRunAt = 0\<rparr> = 1000000000
   \<and> backoffDuration indefinite (cfg_example\<lparr>BackoffBase := Finite (5 / 4)\<rparr>)
     \<lparr>ID = ''job2'', Command = ''exit 1'', State = StateFailed, Attempts = 2,
      MaxRetries = 3, CreatedAt = 0, UpdatedAt = 6, NextRunAt = 0\<rparr> = 1000000000
   \<and> NextRunAt (fst (handleFailure indefinite (cfg_example\<lparr>BackoffBase := Finite (5 / 4)\<rparr>)
         10000000000 True 10000000001
         \<lparr>ID = ''job2'', Command = ''exit 1'', State = StateProcessing, Attempts = 1,
          MaxRetries = 3, CreatedAt = 0, UpdatedAt = 6, NextRunAt = 0\<rparr> [])) = 11000000000
   \<and> NextRunAt (fst (handleFailure indefinite (cfg_example\<lparr>BackoffBase := Finite (5 / 4)\<rparr>)
         10000000000 True 10000000001
         \<lparr>ID = ''job2'', Command = ''exit 1'', State = StateProcessing, Attempts = 2,
          MaxRetries = 3, CreatedAt = 0, UpdatedAt = 6, NextRunAt = 0\<rparr> [])) = 11000000000"
proof -
  have "trunc (5 / 4) = 1" and "trunc ((5 / 4) powi 2) = 1"
    by (simp_all add: trunc_def floor_eq_iff power_int_def power2_eq_square)
  then show ?thesis
    by (simp add: cfg_example_def handleFailure_def UpdateJob_def backoffDuration_def
        Duration_def math_Pow_def wrap64_def Second_def Let_def)
qed

text \<open>
  C5 (as amended). In every run from the empty table, every row that is not dead has
  attempts at most the larger of 1 and its maximum of retries, and every pending row has
  attempts 0 or attempts below its maximum of retries. \<^verbatim>\<open>FindAndLockJob\<close> never looks at
  the maximum of retries; it is the failure handler that makes a job whose attempts have
  reached the maximum dead instead of rescheduling it.
\<close>

theorem attempts_bounded_by_max_retries_or_one:
  "(\<forall>r \<in> set (db (run Unmarshal impl es init)).
       (State r \<noteq> StateDead \<longrightarrow> Attempts r \<le> max 1 (MaxRetries r))
     \<and> (State r = StatePending \<longrightarrow> Attempts r = 0 \<or> Attempts r < MaxRetries r))
   \<and> (Attempts job \<ge> MaxRetries job \<longrightarrow>
        State (fst (handleFailure impl cfg now exec_ok now' job rows)) = StateDead
      \<and> (exec_ok \<longrightarrow> (\<forall>r \<in> set (snd (handleFailure impl cfg now exec_ok now' job rows)).
            ID r = ID job \<longrightarrow> State r = StateDead)))"
proof (intro conjI ballI impI)
  fix r
  assume "r \<in> set (db (run Unmarshal impl es init))"
  then have ok: "row_ok r"
    using invariant_reachable [of Unmarshal impl es] by (simp add: invariant_def)
  { assume "State r \<noteq> StateDead"
    with ok show "Attempts r \<le> max 1 (MaxRetries r)"
      by (simp add: row_ok_def) }
  { assume "State r = StatePending"
    with ok show "Attempts r = 0 \<or> Attempts r < MaxRetries r"
      by (simp add: row_ok_def) }
next
  assume "Attempts job \<ge> MaxRetries job"
  then show "State (fst (handleFailure impl cfg now exec_ok now' job rows)) = StateDead"
    by (simp add: handleFailure_def UpdateJob_def Let_def)
next
  fix r
  assume "Attempts job \<ge> MaxRetries job" and exec_ok
    and "r \<in> set (snd (handleFailure impl cfg now exec_ok now' job rows))" and "ID r = ID job"
  then show "State r = StateDead"
    by (auto simp: handleFailure_def UpdateJob_def Let_def split: if_splits)
qed

text \<open>With \<^verbatim>\<open>max-retries\<close> 2, a job that fails twice: after the second claim its attempts
  are 2, and the second failure makes it dead.\<close>

theorem attempts_bounded_by_max_retries_or_one_witness:
  \<open>db (run Unmarshal_examples indefinite
         [EnqueueCmd ''u1'' 0 (cfg_example\<lparr>cfgMaxRetries := 2\<rparr>) True ''{"id":"job2","command":"exit 1"}'',
          Claim NoFault 5 6,
          Process 0 cfg_example False 7 True 8,
          Claim NoFault 2000000007 2000000008] init)
     = [\<lparr>ID = ''job2'', Command = ''exit 1'', State = StateProcessing, Attempts = 2, MaxRetries = 2,
         CreatedAt = 0, UpdatedAt = 2000000008, NextRunAt = 2000000007\<rparr>]
   \<and> Attempts \<lparr>ID = ''job2'', Command = ''exit 1'', State = StateProcessing, Attempts = 2, MaxRetries = 2,
         CreatedAt = 0, UpdatedAt = 2000000008, NextRunAt = 2000000007\<rparr> \<le> max 1 2
   \<and> State (fst (handleFailure indefinite cfg_example 2000000009 True 2000000010
         \<lparr>ID = ''job2'', Command = ''exit 1'', State = StateProcessing, Attempts = 2, MaxRetries = 2,
          CreatedAt = 0, UpdatedAt = 2000000008, NextRunAt = 2000000007\<rparr>
         [\<lparr>ID = ''job2'', Command = ''exit 1'', State = StateProcessing, Attempts = 2, MaxRetries = 2,
           CreatedAt = 0, UpdatedAt = 2000000008, NextRunAt = 2000000007\<rparr>])) = StateDead\<close>
proof -
  let ?es = \<open>[EnqueueCmd ''u1'' 0 (cfg_example\<lparr>cfgMaxRetries := 2\<rparr>) True ''{"id":"job2","command":"exit 1"}'',
          Claim NoFault 5 6,
          Process 0 cfg_example False 7 True 8,
          Claim NoFault 2000000007 2000000008]\<close>
  let ?r = "\<lparr>ID = ''job2'', Command = ''exit 1'', State = StateProcessing, Attempts = 2, MaxRetries = 2,
         CreatedAt = 0, UpdatedAt = 2000000008, NextRunAt = 2000000007\<rparr>"
  have run: "db (run Unmarshal_examples indefinite ?es init) = [?r]"
    by (simp add: init_def cfg_example_def enqueueCmd_def NewJobFromSpec_def Unmarshal_examples_def
        Enqueue_def FindAndLockJob_def select_ready_def ready_def update_lock_def processJob_def
        handleFailure_def UpdateJob_def backoffDuration_def Duration_def math_Pow_def trunc_def
        wrap64_def Second_def Let_def)
  note inst = attempts_bounded_by_max_retries_or_one
    [of Unmarshal_examples indefinite ?es ?r cfg_example 2000000009 True 2000000010 "[?r]"]
  from inst run have "Attempts ?r \<le> max 1 (MaxRetries ?r)"
    by simp
  moreover from inst
  have "State (fst (handleFailure indefinite cfg_example 2000000009 True 2000000010 ?r [?r])) = StateDead"
    by simp
  ultimately show ?thesis
    using run by simp
qed

text \<open>With \<^verbatim>\<open>max-retries\<close> 0 (which \<^verbatim>\<open>config set max-retries 0\<close> stores), an enqueued
  job is claimed all the same: the row is then processing with attempts 1, above its
  maximum of retries 0.\<close>

theorem attempts_exceed_max_retries_counterexample:
  \<open>db (run Unmarshal_examples indefinite
         [EnqueueCmd ''u1'' 0 (cfg_example\<lparr>cfgMaxRetries := 0\<rparr>) True ''{"id":"job1","command":"echo hi"}'',
          Claim NoFault 5 6] init)
     = [\<lparr>ID = ''job1'', Command = ''echo hi'', State = StateProcessing, Attempts = 1, MaxRetries = 0,
         CreatedAt = 0, UpdatedAt = 6, NextRunAt = 0\<rparr>]
   \<and> State (hd (db (run Unmarshal_examples indefinite
         [EnqueueCmd ''u1'' 0 (cfg_example\<lparr>cfgMaxRetries := 0\<rparr>) True ''{"id":"job1","command":"echo hi"}'',
          Claim NoFault 5 6] init))) \<noteq> StateDead
   \<and> MaxRetries (hd (db (run Unmarshal_examples indefinite
         [EnqueueCmd ''u1'' 0 (cfg_example\<lparr>cfgMaxRetries := 0\<rparr>) True ''{"id":"job1","command":"echo hi"}'',
          Claim NoFault 5 6] init)))
     < Attempts (hd (db (run Unmarshal_examples indefinite
         [EnqueueCmd ''u1'' 0 (cfg_example\<lparr>cfgMaxRetries := 0\<rparr>) True ''{"id":"job1","command":"echo hi"}'',
          Claim NoFault 5 6] init)))\<close>
  by (simp add: init_def cfg_example_def enqueueCmd_def NewJobFromSpec_def Unmarshal_examples_def
        Enqueue_def FindAndLockJob_def select_ready_def ready_def update_lock_def Let_def)

text \<open>
  C6. \<^verbatim>\<open>dlq retry\<close> on the id of a stored job (unique ids): when the job is dead and no
  driver call fails, the row becomes pending with attempts 0 and \<^verbatim>\<open>next_run_at\<close> the
  current time (so not after it), \<^verbatim>\<open>updated_at\<close> is refreshed, and its id, command,
  maximum of retries and creation time, and every other row, are unchanged; when the job
  is not dead the command fails with an error and the table is unchanged, whatever the
  driver does.
\<close>

theorem dlqRetryCmd_resets_dead_job:
  assumes "distinct (map ID rows)" and "i < length rows"
  shows "(State (rows ! i) = StateDead \<longrightarrow>
            dlqRetryCmd True now True now' (ID (rows ! i)) rows =
              (Inr (), rows[i := (rows ! i)\<lparr>State := StatePending, Attempts := 0,
                                            UpdatedAt := now', NextRunAt := now\<rparr>]))
       \<and> (State (rows ! i) \<noteq> StateDead \<longrightarrow>
            (\<exists>e. dlqRetryCmd query_ok now exec_ok now' (ID (rows ! i)) rows = (Inl e, rows)))"
proof (intro conjI impI)
  assume dead: "State (rows ! i) = StateDead"
  have get: "GetJob True (ID (rows ! i)) rows = Inr (rows ! i)"
    by (simp add: GetJob_def find_ID_nth [OF assms])
  let ?job = "(rows ! i)\<lparr>State := StatePending, Attempts := 0, NextRunAt := now\<rparr>"
  let ?upd = "\<lambda>r. r\<lparr>State := StatePending, Attempts := 0, UpdatedAt := now', NextRunAt := now\<rparr>"
  have u: "UpdateJob True now' ?job rows =
             (Inr (), ?job\<lparr>UpdatedAt := now'\<rparr>,
              map (\<lambda>r. if ID r = ID (rows ! i) then ?upd r else r) rows)"
    by (simp add: UpdateJob_def Let_def)
  have m: "map (\<lambda>r. if ID r = ID (rows ! i) then ?upd r else r) rows = rows[i := ?upd (rows ! i)]"
    by (rule map_at_key [OF assms])
  show "dlqRetryCmd True now True now' (ID (rows ! i)) rows =
              (Inr (), rows[i := (rows ! i)\<lparr>State := StatePending, Attempts := 0,
                                            UpdatedAt := now', NextRunAt := now\<rparr>])"
    by (simp add: dlqRetryCmd_def get dead Let_def u m)
next
  assume alive: "State (rows ! i) \<noteq> StateDead"
  show "\<exists>e. dlqRetryCmd query_ok now exec_ok now' (ID (rows ! i)) rows = (Inl e, rows)"
  proof (cases query_ok)
    case True
    then have "GetJob query_ok (ID (rows ! i)) rows = Inr (rows ! i)"
      by (simp add: GetJob_def find_ID_nth [OF assms])
    with alive show ?thesis
      by (simp add: dlqRetryCmd_def)
  next
    case False
    then show ?thesis
      by (simp add: dlqRetryCmd_def GetJob_def)
  qed
qed

text \<open>\<open>job4\<close> of the examples is dead and is reset; \<open>job1\<close> is pending and is refused.\<close>

theorem dlqRetryCmd_resets_dead_job_witness:
  "distinct (map ID rows_example) \<and> 3 < length rows_example
   \<and> State (rows_example ! 3) = StateDead
   \<and> dlqRetryCmd True 20 True 21 ''job4'' rows_example =
       (Inr (), rows_example[3 := \<lparr>ID = ''job4'', Command = ''exit 1'', State = StatePending,
                                   Attempts = 0, MaxRetries = 3, CreatedAt = 0, UpdatedAt = 21,
                                   NextRunAt = 20\<rparr>])
   \<and> State (rows_example ! 0) \<noteq> StateDead
   \<and> (\<exists>e. dlqRetryCmd True 20 True 21 ''job1'' rows_example = (Inl e, rows_example))"
proof -
  have ids: "distinct (map ID rows_example)"
    by (simp add: rows_example_def)
  have len: "3 < length rows_example" "0 < length rows_example"
    by (simp_all add: rows_example_def)
  have dead: "State (rows_example ! 3) = StateDead"
    and alive: "State (rows_example ! 0) \<noteq> StateDead"
    by (simp_all add: rows_example_def)
  from dlqRetryCmd_resets_dead_job [OF ids len(1), of 20 21] dead
  have "dlqRetryCmd True 20 True 21 (ID (rows_example ! 3)) rows_example =
          (Inr (), rows_example[3 := (rows_example ! 3)\<lparr>State := StatePending, Attempts := 0,
                                            UpdatedAt := 21, NextRunAt := 20\<rparr>])"
    by blast
  then have r1: "dlqRetryCmd True 20 True 21 ''job4'' rows_example =
       (Inr (), rows_example[3 := \<lparr>ID = ''job4'', Command = ''exit 1'', State = StatePending,
                                   Attempts = 0, MaxRetries = 3, CreatedAt = 0, UpdatedAt = 21,
                                   NextRunAt = 20\<rparr>])"
    by (simp add: rows_example_def)
  from dlqRetryCmd_resets_dead_job [OF ids len(2), of 20 21 True True] alive
  have "\<exists>e. dlqRetryCmd True 20 True 21 (ID (rows_example ! 0)) rows_example = (Inl e, rows_example)"
    by blast
  then have r2: "\<exists>e. dlqRetryCmd True 20 True 21 ''job1'' rows_example = (Inl e, rows_example)"
    by (simp add: rows_example_def)
  from ids len(1) dead r1 alive r2 show ?thesis
    by blast
qed

text \<open>
  C7. \<^verbatim>\<open>enqueue\<close> of a specification that \<^verbatim>\<open>json.Unmarshal\<close> accepts, when the driver
  does not fail: the id of the job is the id of the specification, or the generated one
  when that is empty. If no row has that id, exactly one row is appended: pending, with
  attempts 0 and with \<^verbatim>\<open>created_at\<close>, \<^verbatim>\<open>updated_at\<close> and \<^verbatim>\<open>next_run_at\<close> all the current
  time; the rows that were there are unchanged. If a row has that id, the command fails
  with the duplicate-id error of the insert and the table is unchanged. The insert itself
  (\<^verbatim>\<open>Enqueue\<close>) appends the job it is given, or refuses it, in the same way.
\<close>

theorem enqueue_inserts_pending_row_or_refuses_duplicate:
  assumes "Unmarshal spec = Inr p"
  shows "((if spec_ID p = [] then uuid_New else spec_ID p) \<notin> ID ` set rows \<longrightarrow>
            enqueueCmd Unmarshal uuid_New now cfg True spec rows =
              (Inr (if spec_ID p = [] then uuid_New else spec_ID p),
               rows @ [\<lparr>ID = (if spec_ID p = [] then uuid_New else spec_ID p),
                        Command = spec_Command p, State = StatePending, Attempts = 0,
                        MaxRetries = cfgMaxRetries cfg,
                        CreatedAt = now, UpdatedAt = now, NextRunAt = now\<rparr>]))
       \<and> ((if spec_ID p = [] then uuid_New else spec_ID p) \<in> ID ` set rows \<longrightarrow>
            enqueueCmd Unmarshal uuid_New now cfg True spec rows =
              (Inl (FailedToEnqueue DuplicateID), rows))
       \<and> (ID job \<notin> ID ` set rows \<longrightarrow> Enqueue True job rows = (Inr (), rows @ [job]))
       \<and> (ID job \<in> ID ` set rows \<longrightarrow> Enqueue True job rows = (Inl DuplicateID, rows))"
  using assms by (simp add: enqueueCmd_def NewJobFromSpec_def Enqueue_def Let_def)

text \<open>A new id is appended to the table of the examples; the id \<open>job1\<close> is there already
  and is refused.\<close>

theorem enqueue_inserts_pending_row_or_refuses_duplicate_witness:
  \<open>Unmarshal_examples ''{"command":"echo hi"}'' = Inr \<lparr>spec_ID = [], spec_Command = ''echo hi''\<rparr>
   \<and> enqueueCmd Unmarshal_examples ''u1'' 30 cfg_example True ''{"command":"echo hi"}'' rows_example =
       (Inr ''u1'',
        rows_example @ [\<lparr>ID = ''u1'', Command = ''echo hi'', State = StatePending, Attempts = 0,
                         MaxRetries = 3, CreatedAt = 30, UpdatedAt = 30, NextRunAt = 30\<rparr>])
   \<and> Unmarshal_examples ''{"id":"job1","command":"echo hi"}'' =
       Inr \<lparr>spec_ID = ''job1'', spec_Command = ''echo hi''\<rparr>
   \<and> enqueueCmd Unmarshal_examples ''u1'' 30 cfg_example True ''{"id":"job1","command":"echo hi"}''
         rows_example = (Inl (FailedToEnqueue DuplicateID), rows_example)\<close>
proof -
  have u1: \<open>Unmarshal_examples ''{"command":"echo hi"}'' = Inr \<lparr>spec_ID = [], spec_Command = ''echo hi''\<rparr>\<close>
    and u2: \<open>Unmarshal_examples ''{"id":"job1","command":"echo hi"}'' =
       Inr \<lparr>spec_ID = ''job1'', spec_Command = ''echo hi''\<rparr>\<close>
    by (simp_all add: Unmarshal_examples_def)
  have fresh: "''u1'' \<notin> ID ` set rows_example" and dup: "''job1'' \<in> ID ` set rows_example"
    by (simp_all add: rows_example_def)
  from enqueue_inserts_pending_row_or_refuses_duplicate
         [where Unmarshal = Unmarshal_examples and uuid_New = "''u1''" and rows = rows_example
            and now = 30 and cfg = cfg_example, OF u1] fresh
  have r1: \<open>enqueueCmd Unmarshal_examples ''u1'' 30 cfg_example True ''{"command":"echo hi"}'' rows_example =
       (Inr ''u1'',
        rows_example @ [\<lparr>ID = ''u1'', Command = ''echo hi'', State = StatePending, Attempts = 0,
                         MaxRetries = 3, CreatedAt = 30, UpdatedAt = 30, NextRunAt = 30\<rparr>])\<close>
    by (simp add: cfg_example_def)
  from enqueue_inserts_pending_row_or_refuses_duplicate
         [where Unmarshal = Unmarshal_examples and uuid_New = "''u1''" and rows = rows_example
            and now = 30 and cfg = cfg_example, OF u2] dup
  have r2: \<open>enqueueCmd Unmarshal_examples ''u1'' 30 cfg_example True ''{"id":"job1","command":"echo hi"}''
         rows_example = (Inl (FailedToEnqueue DuplicateID), rows_example)\<close>
    by simp
  from u1 r1 u2 r2 show ?thesis
    by blast
qed

text \<open>
  C8 (as amended). \<^verbatim>\<open>enqueue\<close> rejects a specification exactly when \<^verbatim>\<open>json.Unmarshal\<close>
  rejects it (a text that is not JSON, a member of the wrong type): the command then
  fails with the invalid-specification error and the table is unchanged, whatever the
  driver would do. There is no check of the command: a specification that is accepted
  and holds no command gives a job with the empty command, which is inserted as a pending
  row like any other when its id is new.
\<close>

theorem enqueueCmd_rejects_what_Unmarshal_rejects:
  "(Unmarshal spec = Inl e \<longrightarrow>
      enqueueCmd Unmarshal uuid_New now cfg exec_ok spec rows = (Inl (InvalidJobSpec e), rows))
   \<and> (Unmarshal spec = Inr p \<longrightarrow> spec_Command p = [] \<longrightarrow>
      (if spec_ID p = [] then uuid_New else spec_ID p) \<notin> ID ` set rows \<longrightarrow>
      enqueueCmd Unmarshal uuid_New now cfg True spec rows =
        (Inr (if spec_ID p = [] then uuid_New else spec_ID p),
         rows @ [\<lparr>ID = (if spec_ID p = [] then uuid_New else spec_ID p),
                  Command = [], State = StatePending, Attempts = 0,
                  MaxRetries = cfgMaxRetries cfg,
                  CreatedAt = now, UpdatedAt = now, NextRunAt = now\<rparr>]))"
  by (simp add: enqueueCmd_def NewJobFromSpec_def Enqueue_def Let_def)

text \<open>A text that is cut off is rejected and nothing is inserted; the empty object is
  accepted and a job with the generated id and the empty command is inserted.\<close>

theorem enqueueCmd_rejects_what_Unmarshal_rejects_witness:
  \<open>Unmarshal_examples ''{"id":'' = Inl UnmarshalError
   \<and> enqueueCmd Unmarshal_examples ''u1'' 30 cfg_example True ''{"id":'' rows_example =
       (Inl (InvalidJobSpec UnmarshalError), rows_example)
   \<and> Unmarshal_examples ''{}'' = Inr \<lparr>spec_ID = [], spec_Command = []\<rparr>
   \<and> enqueueCmd Unmarshal_examples ''u1'' 30 cfg_example True ''{}'' rows_example =
       (Inr ''u1'',
        rows_example @ [\<lparr>ID = ''u1'', Command = [], State = StatePending, Attempts = 0,
                         MaxRetries = 3, CreatedAt = 30, UpdatedAt = 30, NextRunAt = 30\<rparr>])\<close>
proof -
  have u1: \<open>Unmarshal_examples ''{"id":'' = Inl UnmarshalError\<close>
    and u2: \<open>Unmarshal_examples ''{}'' = Inr \<lparr>spec_ID = [], spec_Command = []\<rparr>\<close>
    by (simp_all add: Unmarshal_examples_def)
  have fresh: "''u1'' \<notin> ID ` set rows_example"
    by (simp add: rows_example_def)
  from enqueueCmd_rejects_what_Unmarshal_rejects
         [where Unmarshal = Unmarshal_examples and spec = \<open>''{"id":''\<close> and e = UnmarshalError
            and uuid_New = "''u1''" and now = 30 and cfg = cfg_example and exec_ok = True
            and rows = rows_example] u1
  have r1: \<open>enqueueCmd Unmarshal_examples ''u1'' 30 cfg_example True ''{"id":'' rows_example =
       (Inl (InvalidJobSpec UnmarshalError), rows_example)\<close>
    by blast
  from enqueueCmd_rejects_what_Unmarshal_rejects
         [where Unmarshal = Unmarshal_examples and spec = \<open>''{}''\<close>
            and p = "\<lparr>spec_ID = [], spec_Command = []\<rparr>"
            and uuid_New = "''u1''" and now = 30 and cfg = cfg_example and rows = rows_example] u2 fresh
  have r2: \<open>enqueueCmd Unmarshal_examples ''u1'' 30 cfg_example True ''{}'' rows_example =
       (Inr ''u1'',
        rows_example @ [\<lparr>ID = ''u1'', Command = [], State = StatePending, Attempts = 0,
                         MaxRetries = 3, CreatedAt = 30, UpdatedAt = 30, NextRunAt = 30\<rparr>])\<close>
    by (simp add: cfg_example_def)
  from u1 r1 u2 r2 show ?thesis
    by blast
qed

text \<open>The specification \<^verbatim>\<open>{"id":"job1"}\<close> has no command. It is not rejected: the table,
  empty before, holds the job afterwards.\<close>

theorem enqueueCmd_accepts_spec_without_command_counterexample:
  \<open>enqueueCmd Unmarshal_examples ''u1'' 30 cfg_example True ''{"id":"job1"}'' [] =
     (Inr ''job1'',
      [\<lparr>ID = ''job1'', Command = [], State = StatePending, Attempts = 0,
        MaxRetries = 3, CreatedAt = 30, UpdatedAt = 30, NextRunAt = 30\<rparr>])\<close>
  by (simp add: enqueueCmd_def NewJobFromSpec_def Unmarshal_examples_def Enqueue_def
      cfg_example_def Let_def)

text \<open>
  C9 (as amended). \<^verbatim>\<open>config set backoff-base\<close> rejects a value only when
  \<^verbatim>\<open>strconv.ParseFloat\<close> rejects the text. Every finite value, also one that is zero or
  negative, is stored in the configuration and saved to the file as it is. A value that
  is not finite is stored in memory too, and it is \<^verbatim>\<open>Save\<close> that fails on it: the
  command returns an error and the file is unchanged. So the failure handler can run
  with a base that is not positive: with a base q between \<open>- 2 ^ 33\<close> and \<open>- 1\<close> the job
  that fails its first attempt (and has retries left) is rescheduled with
  \<^verbatim>\<open>next_run_at\<close> at least one second before the current time.
\<close>

theorem configSetCmd_accepts_every_finite_base:
  "(ParseFloat val = Inl e \<longrightarrow>
      configSetCmd Atoi ParseFloat write_ok ''backoff-base'' val cfg saved =
        (Inl (InvalidValue val), cfg, saved))
   \<and> (ParseFloat val = Inr (Finite q) \<longrightarrow>
      configSetCmd Atoi ParseFloat True ''backoff-base'' val cfg saved =
        (Inr (), cfg\<lparr>BackoffBase := Finite q\<rparr>,
         Some \<lparr>max_retries = cfgMaxRetries cfg, backoff_base = q\<rparr>))
   \<and> (ParseFloat val = Inr f \<longrightarrow> f \<in> {PosInf, NegInf, NaN} \<longrightarrow>
      configSetCmd Atoi ParseFloat write_ok ''backoff-base'' val cfg saved =
        (Inl (FailedToSave UnsupportedValueError), cfg\<lparr>BackoffBase := f\<rparr>, saved))
   \<and> (BackoffBase wcfg = Finite q \<longrightarrow> - (2 ^ 33) \<le> q \<longrightarrow> q \<le> - 1 \<longrightarrow>
      Attempts job = 1 \<longrightarrow> 1 < MaxRetries job \<longrightarrow>
        State (fst (handleFailure impl wcfg now exec_ok now' job rows)) = StatePending
      \<and> NextRunAt (fst (handleFailure impl wcfg now exec_ok now' job rows)) = now + \<lceil>q\<rceil> * Second
      \<and> NextRunAt (fst (handleFailure impl wcfg now exec_ok now' job rows)) \<le> now - Second)"
proof (intro conjI impI)
  assume "ParseFloat val = Inl e"
  then show "configSetCmd Atoi ParseFloat write_ok ''backoff-base'' val cfg saved =
        (Inl (InvalidValue val), cfg, saved)"
    by (simp add: configSetCmd_def)
next
  assume "ParseFloat val = Inr (Finite q)"
  then show "configSetCmd Atoi ParseFloat True ''backoff-base'' val cfg saved =
        (Inr (), cfg\<lparr>BackoffBase := Finite q\<rparr>,
         Some \<lparr>max_retries = cfgMaxRetries cfg, backoff_base = q\<rparr>)"
    by (simp add: configSetCmd_def Save_def)
next
  assume "ParseFloat val = Inr f" and "f \<in> {PosInf, NegInf, NaN}"
  then show "configSetCmd Atoi ParseFloat write_ok ''backoff-base'' val cfg saved =
        (Inl (FailedToSave UnsupportedValueError), cfg\<lparr>BackoffBase := f\<rparr>, saved)"
    by (auto simp: configSetCmd_def Save_def)
next
  assume a: "BackoffBase wcfg = Finite q" "- (2 ^ 33) \<le> q" "q \<le> - 1" "Attempts job = 1"
    "1 < MaxRetries job"
  let ?job = "job\<lparr>State := StateFailed\<rparr>"
  have one: "Attempts ?job = 1"
    using a(4) by simp
  note d = backoffDuration_negative_base [OF a(1) a(3) a(2) one, of impl]
  have h: "fst (handleFailure impl wcfg now exec_ok now' job rows) =
             job\<lparr>State := StatePending, NextRunAt := now + backoffDuration impl wcfg ?job,
                  UpdatedAt := now'\<rparr>"
    using a(4,5) by (simp add: handleFailure_def UpdateJob_def Let_def)
  show "State (fst (handleFailure impl wcfg now exec_ok now' job rows)) = StatePending"
    by (simp add: h)
  show "NextRunAt (fst (handleFailure impl wcfg now exec_ok now' job rows)) = now + \<lceil>q\<rceil> * Second"
    by (simp add: h d(1))
  show "NextRunAt (fst (handleFailure impl wcfg now exec_ok now' job rows)) \<le> now - Second"
    using d(2) by (simp add: h)
qed


text \<open>A text that is no number is refused; \<open>1.5\<close> is stored and saved; NaN is stored in
  memory and not saved; and with the base \<open>- 2\<close> a first failure at time 10 s reschedules
  the job for time 8 s.\<close>

theorem configSetCmd_accepts_every_finite_base_witness:
  "ParseFloat_examples ''fast'' = Inl NumError
   \<and> configSetCmd Atoi_examples ParseFloat_examples True ''backoff-base'' ''fast'' cfg_example None =
       (Inl (InvalidValue ''fast''), cfg_example, None)
   \<and> ParseFloat_examples ''1.5'' = Inr (Finite (3 / 2))
   \<and> configSetCmd Atoi_examples ParseFloat_examples True ''backoff-base'' ''1.5'' cfg_example None =
       (Inr (), cfg_example\<lparr>BackoffBase := Finite (3 / 2)\<rparr>,
        Some \<lparr>max_retries = 3, backoff_base = 3 / 2\<rparr>)
   \<and> ParseFloat_examples ''NaN'' = Inr NaN
   \<and> configSetCmd Atoi_examples ParseFloat_examples True ''backoff-base'' ''NaN'' cfg_example None =
       (Inl (FailedToSave UnsupportedValueError), cfg_example\<lparr>BackoffBase := NaN\<rparr>, None)
   \<and> NextRunAt (fst (handleFailure indefinite (cfg_example\<lparr>BackoffBase := Finite (- 2)\<rparr>)
         10000000000 True 10000000001
         \<lparr>ID = ''job2'', Command = ''exit 1'', State = StateProcessing, Attempts = 1,
          MaxRetries = 3, CreatedAt = 0, UpdatedAt = 6, NextRunAt = 0\<rparr> []))
       = 8000000000"
proof -
  let ?job = "\<lparr>ID = ''job2'', Command = ''exit 1'', State = StateProcessing, Attempts = 1,
          MaxRetries = 3, CreatedAt = 0, UpdatedAt = 6, NextRunAt = 0\<rparr>"
  note inst = configSetCmd_accepts_every_finite_base
    [where Atoi = Atoi_examples and ParseFloat = ParseFloat_examples and cfg = cfg_example
       and saved = None and write_ok = True]
  have p1: "ParseFloat_examples ''fast'' = Inl NumError"
    and p2: "ParseFloat_examples ''1.5'' = Inr (Finite (3 / 2))"
    and p3: "ParseFloat_examples ''NaN'' = Inr NaN"
    by (simp_all add: ParseFloat_examples_def)
  from inst [where val = "''fast''" and e = NumError] p1
  have r1: "configSetCmd Atoi_examples ParseFloat_examples True ''backoff-base'' ''fast'' cfg_example None =
       (Inl (InvalidValue ''fast''), cfg_example, None)"
    by blast
  from inst [where val = "''1.5''" and q = "3 / 2"] p2
  have r2: "configSetCmd Atoi_examples ParseFloat_examples True ''backoff-base'' ''1.5'' cfg_example None =
       (Inr (), cfg_example\<lparr>BackoffBase := Finite (3 / 2)\<rparr>,
        Some \<lparr>max_retries = 3, backoff_base = 3 / 2\<rparr>)"
    by (simp add: cfg_example_def)
  from inst [where val = "''NaN''" and f = NaN] p3
  have r3: "configSetCmd Atoi_examples ParseFloat_examples True ''backoff-base'' ''NaN'' cfg_example None =
       (Inl (FailedToSave UnsupportedValueError), cfg_example\<lparr>BackoffBase := NaN\<rparr>, None)"
    by blast
  from inst [where wcfg = "cfg_example\<lparr>BackoffBase := Finite (- 2)\<rparr>" and q = "- 2"
               and job = ?job and impl = indefinite and now = 10000000000 and exec_ok = True
               and now' = 10000000001 and rows = "[]"]
  have r4: "NextRunAt (fst (handleFailure indefinite (cfg_example\<lparr>BackoffBase := Finite (- 2)\<rparr>)
         10000000000 True 10000000001 ?job [])) = 8000000000"
    by (simp add: Second_def)
  from p1 r1 p2 r2 p3 r3 r4 show ?thesis
    by blast
qed

text \<open>\<^verbatim>\<open>config set backoff-base -2\<close> on the default configuration succeeds and writes the
  base \<open>- 2\<close> to the file; a worker that loads the file and handles the first failure of a
  job at time 10 s reschedules it for time 8 s.\<close>

theorem configSetCmd_accepts_negative_base_counterexample:
  "configSetCmd Atoi_examples ParseFloat_examples True ''backoff-base'' ''-2'' cfg_example None =
     (Inr (), cfg_example\<lparr>BackoffBase := Finite (- 2)\<rparr>,
      Some \<lparr>max_retries = 3, backoff_base = - 2\<rparr>)
   \<and> Load None True ''/home/u/.queuectl'' (Some \<lparr>max_retries = 3, backoff_base = - 2\<rparr>) =
     (Inr (cfg_example\<lparr>BackoffBase := Finite (- 2)\<rparr>),
      Some (cfg_example\<lparr>BackoffBase := Finite (- 2)\<rparr>))
   \<and> handleFailure indefinite (cfg_example\<lparr>BackoffBase := Finite (- 2)\<rparr>)
         10000000000 True 10000000001
         \<lparr>ID = ''job2'', Command = ''exit 1'', State = StateProcessing, Attempts = 1,
          MaxRetries = 3, CreatedAt = 0, UpdatedAt = 6, NextRunAt = 0\<rparr>
         [\<lparr>ID = ''job2'', Command = ''exit 1'', State = StateProcessing, Attempts = 1,
           MaxRetries = 3, CreatedAt = 0, UpdatedAt = 6, NextRunAt = 0\<rparr>] =
     (\<lparr>ID = ''job2'', Command = ''exit 1'', State = StatePending, Attempts = 1,
       MaxRetries = 3, CreatedAt = 0, UpdatedAt = 10000000001, NextRunAt = 8000000000\<rparr>,
      [\<lparr>ID = ''job2'', Command = ''exit 1'', State = StatePending, Attempts = 1,
        MaxRetries = 3, CreatedAt = 0, UpdatedAt = 10000000001, NextRunAt = 8000000000\<rparr>])"
  by (simp add: configSetCmd_def ParseFloat_examples_def Save_def Load_def cfg_example_def
      DefaultMaxRetries_def DefaultBackoffBase_def handleFailure_def UpdateJob_def
      backoffDuration_def Duration_def math_Pow_def trunc_def wrap64_def Second_def Let_def)

text \<open>
  C10. In every run from the empty table (any sequence of \<^verbatim>\<open>enqueue\<close> commands, claims,
  \<^verbatim>\<open>processJob\<close> updates of held jobs and \<^verbatim>\<open>dlq retry\<close> commands, with any driver
  failures), no row has the state failed, so \<^verbatim>\<open>ListJobsByState\<close> of that state returns
  the empty list; the failure handler leaves the job it passes to \<^verbatim>\<open>UpdateJob\<close> dead or
  pending, never failed.
\<close>

theorem no_Failed_row_is_persisted:
  "ListJobsByState True StateFailed (db (run Unmarshal impl es init)) = Inr []
   \<and> (State (fst (handleFailure impl cfg now exec_ok now' job rows)) = StateDead
      \<or> State (fst (handleFailure impl cfg now exec_ok now' job rows)) = StatePending)"
proof
  have "\<forall>r \<in> set (db (run Unmarshal impl es init)). row_ok r"
    using invariant_reachable [of Unmarshal impl es] by (simp add: invariant_def)
  then have "filter (\<lambda>r. State r = StateFailed) (db (run Unmarshal impl es init)) = []"
    by (auto simp: row_ok_def filter_empty_conv)
  then show "ListJobsByState True StateFailed (db (run Unmarshal impl es init)) = Inr []"
    by (simp add: ListJobsByState_def)
next
  show "State (fst (handleFailure impl cfg now exec_ok now' job rows)) = StateDead
      \<or> State (fst (handleFailure impl cfg now exec_ok now' job rows)) = StatePending"
    by (simp add: handleFailure_def UpdateJob_def Let_def)
qed

text \<open>A job is enqueued, claimed and fails: it is rescheduled as pending, and the list of
  failed jobs is empty.\<close>

theorem no_Failed_row_is_persisted_witness:
  \<open>db (run Unmarshal_examples indefinite
         [EnqueueCmd ''u1'' 0 cfg_example True ''{"id":"job2","command":"exit 1"}'',
          Claim NoFault 5 6,
          Process 0 cfg_example False 7 True 8] init)
     = [\<lparr>ID = ''job2'', Command = ''exit 1'', State = StatePending, Attempts = 1, MaxRetries = 3,
         CreatedAt = 0, UpdatedAt = 8, NextRunAt = 2000000007\<rparr>]
   \<and> ListJobsByState True StateFailed
        (db (run Unmarshal_examples indefinite
               [EnqueueCmd ''u1'' 0 cfg_example True ''{"id":"job2","command":"exit 1"}'',
                Claim NoFault 5 6,
                Process 0 cfg_example False 7 True 8] init)) = Inr []\<close>
proof -
  have \<open>db (run Unmarshal_examples indefinite
         [EnqueueCmd ''u1'' 0 cfg_example True ''{"id":"job2","command":"exit 1"}'',
          Claim NoFault 5 6,
          Process 0 cfg_example False 7 True 8] init)
     = [\<lparr>ID = ''job2'', Command = ''exit 1'', State = StatePending, Attempts = 1, MaxRetries = 3,
         CreatedAt = 0, UpdatedAt = 8, NextRunAt = 2000000007\<rparr>]\<close>
    by (simp add: init_def cfg_example_def enqueueCmd_def NewJobFromSpec_def Unmarshal_examples_def
        Enqueue_def FindAndLockJob_def select_ready_def ready_def update_lock_def processJob_def
        handleFailure_def UpdateJob_def backoffDuration_def Duration_def math_Pow_def trunc_def
        wrap64_def Second_def Let_def)
  moreover have \<open>ListJobsByState True StateFailed
        (db (run Unmarshal_examples indefinite
               [EnqueueCmd ''u1'' 0 cfg_example True ''{"id":"job2","command":"exit 1"}'',
                Claim NoFault 5 6,
                Process 0 cfg_example False 7 True 8] init)) = Inr []\<close>
    using no_Failed_row_is_persisted by blast
  ultimately show ?thesis
    by blast
qed

end
